theory Spec2Isabelle
  imports Main "HOL-Library.Multiset" "HOL-Library.Char_ord" "HOL-Library.List_Lexorder"
begin

section \<open>Data model (types.ts)\<close>

text \<open>
  JavaScript strings are modelled as \<open>string\<close> (lists of 8-bit characters) and an
  optional field (\<open>image_url?: string\<close>) as an \<open>option\<close>. The field \<open>id\<close> of a page
  is called \<open>page_id\<close> and its field \<open>text\<close> is called \<open>page_text\<close>, since \<open>id\<close>
  is the identity function of HOL and \<open>text\<close> a keyword.

  A page's \<open>id\<close> and the blueprint's \<open>age\<close> are JavaScript numbers, that is IEEE
  doubles: they need not be integers, and \<open>x - 1\<close> is rounded (it is \<open>x\<close> itself for a
  large \<open>x\<close>). The type \<open>'n\<close> of these numbers is left open, and the two operations
  the program applies to them are parameters of the model, so that every result holds
  whatever the subtraction and the rendering of numbers compute: \<open>minus_one\<close> is
  \<open>x - 1\<close>, and \<open>number_text\<close> is the text of a number in a template literal. The
  program compares ids with \<open>===\<close> and \<open>!==\<close> and uses them as keys of a \<open>Map\<close>;
  these agree with equality on all numbers but \<open>NaN\<close>, which \<open>JSON.parse\<close> never
  returns, once \<open>+0\<close> and \<open>-0\<close> are taken as one number. The creation time is
  \<open>Date.now()\<close>, an integer.
\<close>

record 'n number_ops =
  minus_one :: "'n \<Rightarrow> 'n"
  number_text :: "'n \<Rightarrow> string"

datatype VisualComplexity = MINIMAL | BALANCED | RICH

datatype Gender = boy | girl

record 'n CharacterBlueprint =
  age :: 'n
  hair :: string
  skin_tone :: string
  clothing :: string
  expression_style :: string
  accessories :: "string option"

record 'n StoryPage =
  page_id :: 'n
  page_text :: string
  action_description :: string
  image_url :: "string option"
  is_generating :: bool
  error :: "string option"

record 'n StoryboardData =
  uid :: string
  createdAt :: int
  title :: string
  purpose :: string
  character_blueprint :: "'n CharacterBlueprint"
  visual_style_guide :: string
  pages :: "'n StoryPage list"

text \<open>A thrown or rejected JavaScript value: an \<open>Error\<close> with its message, or an error
  object raised by the platform (the generative-AI client, IndexedDB, \<open>JSON.parse\<close>).\<close>

datatype exn = Error string | ApiError string | DOMException string | SyntaxError string

section \<open>The image service (generatePageImage)\<close>

text \<open>
  A part of a request to, or of a response of, the image model: either inline data with
  an optional mime type and optional base64 data, or text.
\<close>

datatype part = InlineData "string option" "string option" | TextPart string

text \<open>\<open>response.candidates?.[0]?.content?.parts\<close>: every level may be absent.\<close>

type_synonym content = "part list option"
type_synonym candidate = "content option"
type_synonym response = "candidate list option"

text \<open>
  The wording of the prompt is content, not logic: the fixed fragments of the template
  literal are parameters, so every result holds whatever they say.
  \<open>task_header\<close> is the text before \<open>${baseDescription}\<close>, \<open>scene_header\<close> the text
  between it and \<open>${pageDesc}\<close>, \<open>generation_rules\<close> the text after it, and
  \<open>reference_handling\<close> the paragraph appended when references are given.
\<close>

record prompt_text =
  task_header :: string
  scene_header :: string
  generation_rules :: string
  reference_handling :: string

record 'n styleConfig =
  globalPrompt :: "string option"
  blueprint :: "'n CharacterBlueprint option"
  complexity :: VisualComplexity

text \<open>Decimal rendering of a natural number, as JavaScript names the index of an array
  element.\<close>

definition digit_char :: "nat \<Rightarrow> char" where
  "digit_char d = char_of (48 + d)"

function show_nat :: "nat \<Rightarrow> string" where
  "show_nat n = (if n < 10 then [digit_char n] else show_nat (n div 10) @ [digit_char (n mod 10)])"
  by pat_completeness auto
termination
  by (relation "measure (\<lambda>n. n)") auto

text \<open>
  The regular expression \<open>/^data:(.+);base64,(.+)$/\<close>. A dot matches every character
  but a line terminator, so a matching string has none; the first group is greedy, so
  it is the longest non-empty prefix of the rest that is followed by \<open>;base64,\<close> and
  at least one more character. \<open>greedy_split n s\<close> tries the first group's lengths
  \<open>n, n - 1, ..., 1\<close> in this order, as backtracking does. Of the four line
  terminators of JavaScript, line feed and carriage return are 8-bit characters; the
  other two (U+2028, U+2029) are not characters of this model's strings.
\<close>

definition line_terminator :: "char \<Rightarrow> bool" where
  "line_terminator c \<longleftrightarrow> c = CHR 0x0A \<or> c = CHR 0x0D"

fun greedy_split :: "nat \<Rightarrow> string \<Rightarrow> (string \<times> string) option" where
  "greedy_split 0 s = None"
| "greedy_split (Suc n) s =
     (if take 8 (drop (Suc n) s) = '';base64,'' \<and> drop 8 (drop (Suc n) s) \<noteq> []
      then Some (take (Suc n) s, drop 8 (drop (Suc n) s))
      else greedy_split n s)"

definition match_data_url :: "string \<Rightarrow> (string \<times> string) option" where
  "match_data_url url =
     (if take 5 url = ''data:'' \<and> \<not> list_ex line_terminator url
      then greedy_split (length url - 5) (drop 5 url)
      else None)"

text \<open>\<open>referenceImageUrls.forEach\<close>: a URL that matches contributes one inline-data part,
  one that does not contributes nothing.\<close>

fun reference_parts :: "string list \<Rightarrow> part list" where
  "reference_parts [] = []"
| "reference_parts (url # urls) =
     (case match_data_url url of
        Some (mimeType, base64Data) \<Rightarrow> InlineData (Some mimeType) (Some base64Data) # reference_parts urls
      | None \<Rightarrow> reference_parts urls)"

definition character_line :: "'n number_ops \<Rightarrow> 'n CharacterBlueprint \<Rightarrow> string" where
  "character_line ops bp =
     ''[CHARACTER]'' @ [CHR 0x0A] @ ''Child, age '' @ number_text ops (age bp) @ '', '' @ hair bp
     @ '' hair, '' @ skin_tone bp @ '' skin, wearing '' @ clothing bp @ ''.''"

text \<open>\<open>if (styleConfig.globalPrompt)\<close> holds for a present, non-empty string.\<close>

definition baseDescription :: "'n number_ops \<Rightarrow> 'n styleConfig \<Rightarrow> string" where
  "baseDescription ops cfg =
     (if globalPrompt cfg \<noteq> None \<and> globalPrompt cfg \<noteq> Some []
      then ''[VISUAL STYLE & CHARACTER ID (IMMUTABLE)]'' @ [CHR 0x0A] @ the (globalPrompt cfg)
      else (case blueprint cfg of Some bp \<Rightarrow> character_line ops bp | None \<Rightarrow> []))"

definition finalPrompt :: "'n number_ops \<Rightarrow> prompt_text \<Rightarrow> string \<Rightarrow> 'n styleConfig \<Rightarrow> string list \<Rightarrow> string" where
  "finalPrompt ops pt pageDesc cfg referenceImageUrls =
     task_header pt @ baseDescription ops cfg @ scene_header pt @ pageDesc @ generation_rules pt
     @ (if length referenceImageUrls > 0 then reference_handling pt else [])"

definition request_parts :: "'n number_ops \<Rightarrow> prompt_text \<Rightarrow> string \<Rightarrow> 'n styleConfig \<Rightarrow> string list \<Rightarrow> part list" where
  "request_parts ops pt pageDesc cfg referenceImageUrls =
     reference_parts referenceImageUrls @ [TextPart (finalPrompt ops pt pageDesc cfg referenceImageUrls)]"

definition response_parts :: "response \<Rightarrow> part list" where
  "response_parts r =
     (case r of
        None \<Rightarrow> []
      | Some [] \<Rightarrow> []
      | Some (c # _) \<Rightarrow> (case c of None \<Rightarrow> [] | Some None \<Rightarrow> [] | Some (Some ps) \<Rightarrow> ps))"

text \<open>The template literal \<open>`data:${mimeType};base64,${data}`\<close>; an absent mime type is
  rendered as the text \<open>undefined\<close>.\<close>

definition data_url :: "string option \<Rightarrow> string \<Rightarrow> string" where
  "data_url mimeType d =
     ''data:'' @ (case mimeType of Some m \<Rightarrow> m | None \<Rightarrow> ''undefined'') @ '';base64,'' @ d"

text \<open>The loop over the response's parts: the first part with inline data whose data is
  a non-empty string decides; with none, the function throws.\<close>

fun first_image :: "part list \<Rightarrow> exn + string" where
  "first_image [] = Inl (Error ''No image data returned'')"
| "first_image (InlineData mimeType (Some d) # ps) =
     (if d \<noteq> [] then Inr (data_url mimeType d) else first_image ps)"
| "first_image (_ # ps) = first_image ps"

text \<open>
  \<open>generateContent\<close> is the call to the image model: given the parts of the request, it
  rejects with an error or resolves with a response. The \<open>catch\<close> logs and rethrows.
\<close>

definition generatePageImage ::
  "'n number_ops \<Rightarrow> prompt_text \<Rightarrow> (part list \<Rightarrow> exn + response) \<Rightarrow> string \<Rightarrow> 'n styleConfig \<Rightarrow> string list \<Rightarrow> exn + string"
where
  "generatePageImage ops pt generateContent pageDesc cfg referenceImageUrls =
     (case generateContent (request_parts ops pt pageDesc cfg referenceImageUrls) of
        Inl e \<Rightarrow> Inl e
      | Inr r \<Rightarrow> first_image (response_parts r))"

text \<open>A part of a response that carries image data: inline data whose data is a
  non-empty string.\<close>

fun has_image :: "part \<Rightarrow> bool" where
  "has_image (InlineData mimeType (Some d)) = (d \<noteq> [])"
| "has_image _ = False"

section \<open>The storyboard service (generateStoryboard)\<close>

text \<open>
  The value \<open>JSON.parse\<close> returns. Numbers are the integers the program uses; an
  object lists its members in the order of the text.
\<close>

datatype json = JNull | JBool bool | JNumber int | JString string | JArray "json list"
  | JObject "(string \<times> json) list"

text \<open>A JavaScript object at run time: a finite map from property names to values. The
  declared type \<open>StoryboardData\<close> is not checked at run time, so the result of
  \<open>generateStoryboard\<close> is such an object and may lack declared fields.\<close>

type_synonym js_object = "string \<rightharpoonup> json"

text \<open>
  The spread \<open>{...data}\<close> copies the own enumerable properties of \<open>data\<close>: the
  members of an object (of a repeated name, the last), the elements of an array and the
  characters of a string under their indices, nothing for \<open>null\<close>, a number or a
  boolean.
\<close>

definition spread :: "json \<Rightarrow> js_object" where
  "spread v =
     (case v of
        JObject kvs \<Rightarrow> map_of (rev kvs)
      | JArray xs \<Rightarrow> map_of (zip (map show_nat [0..<length xs]) xs)
      | JString s \<Rightarrow> map_of (zip (map show_nat [0..<length s]) (map (\<lambda>c. JString [c]) s))
      | _ \<Rightarrow> Map.empty)"

text \<open>\<open>Number.prototype.toString(36)\<close> on an integer.\<close>

definition digit36 :: "nat \<Rightarrow> char" where
  "digit36 d = (if d < 10 then char_of (48 + d) else char_of (87 + d))"

function nat_to_base36 :: "nat \<Rightarrow> string" where
  "nat_to_base36 n =
     (if n < 36 then [digit36 n] else nat_to_base36 (n div 36) @ [digit36 (n mod 36)])"
  by pat_completeness auto
termination
  by (relation "measure (\<lambda>n. n)") auto

definition toString36 :: "int \<Rightarrow> string" where
  "toString36 i = (if i < 0 then CHR ''-'' # nat_to_base36 (nat (- i)) else nat_to_base36 (nat i))"

text \<open>
  The fixed text of the storyboard prompt is a parameter, as for the image prompt:
  \<open>before_story\<close> is the text before \<open>${storyText}\<close>, \<open>before_complexity\<close> the text
  up to \<open>${complexity}\<close>, \<open>before_gender\<close> the text between the closing bracket of
  the guide and \<open>${gender}\<close>, \<open>after_gender\<close> the rest.
\<close>

record storyboard_prompt_text =
  before_story :: string
  before_complexity :: string
  before_gender :: string
  after_gender :: string

fun complexity_name :: "VisualComplexity \<Rightarrow> string" where
  "complexity_name MINIMAL = ''Minimal''"
| "complexity_name BALANCED = ''Balanced''"
| "complexity_name RICH = ''Rich''"

fun gender_name :: "Gender \<Rightarrow> string" where
  "gender_name boy = ''boy''"
| "gender_name girl = ''girl''"

definition complexityGuide :: "VisualComplexity \<Rightarrow> string" where
  "complexityGuide c =
     (if c = MINIMAL then ''Keep backgrounds solid color or empty. Focus purely on the main action.''
      else ''Standard storybook composition.'')"

definition storyboard_prompt ::
  "storyboard_prompt_text \<Rightarrow> string \<Rightarrow> VisualComplexity \<Rightarrow> Gender \<Rightarrow> string" where
  "storyboard_prompt spt storyText c gender =
     before_story spt @ storyText @ before_complexity spt @ complexity_name c @ '' (''
     @ complexityGuide c @ '')'' @ before_gender spt @ gender_name gender @ after_gender spt"

text \<open>
  What the function reads from its environment: \<open>Date.now()\<close> for the uid,
  \<open>Math.random().toString(36)\<close>, and \<open>Date.now()\<close> for \<open>createdAt\<close>.
\<close>

record clock_and_dice =
  now_uid :: int
  random36 :: string
  now_createdAt :: int

text \<open>\<open>Date.now().toString(36) + Math.random().toString(36).substr(2, 9)\<close>\<close>

definition new_uid :: "clock_and_dice \<Rightarrow> string" where
  "new_uid env = toString36 (now_uid env) @ take 9 (drop 2 (random36 env))"

text \<open>\<open>response.text || "{}"\<close>: an absent or empty text is replaced by \<open>{}\<close>.\<close>

definition text_or_braces :: "string option \<Rightarrow> string" where
  "text_or_braces t = (case t of None \<Rightarrow> ''{}'' | Some s \<Rightarrow> if s = [] then ''{}'' else s)"

text \<open>
  \<open>generateContent\<close> is the call to the text model, which rejects or resolves with a
  response whose text may be absent; \<open>JSON_parse\<close> is the platform's \<open>JSON.parse\<close>,
  which throws a \<open>SyntaxError\<close> or returns a value. Both stand inside the \<open>try\<close>, whose
  \<open>catch\<close> throws the function's own error.
\<close>

definition generateStoryboard ::
  "storyboard_prompt_text \<Rightarrow> (string \<Rightarrow> exn + json) \<Rightarrow> clock_and_dice
   \<Rightarrow> (string \<Rightarrow> exn + string option) \<Rightarrow> string \<Rightarrow> VisualComplexity \<Rightarrow> Gender \<Rightarrow> exn + js_object"
where
  "generateStoryboard spt JSON_parse env generateContent storyText c gender =
     (case generateContent (storyboard_prompt spt storyText c gender) of
        Inl e \<Rightarrow> Inl (Error ''Failed to generate storyboard structure.'')
      | Inr t \<Rightarrow>
          (case JSON_parse (text_or_braces t) of
             Inl e \<Rightarrow> Inl (Error ''Failed to generate storyboard structure.'')
           | Inr data_v \<Rightarrow>
               Inr ((spread data_v)(''uid'' \<mapsto> JString (new_uid env),
                                   ''createdAt'' \<mapsto> JNumber (now_createdAt env)))))"

section \<open>The image sequencer (App.tsx, generateImagesSequence)\<close>

text \<open>
  The loop's effects are made explicit in a state: the local \<open>generatedImagesMap\<close>, the
  React state \<open>story\<close> (changed only through the functional updates the loop passes to
  \<open>setStory\<close>), and a log of the calls to \<open>generatePageImage\<close> in the order in which
  they were issued, each with the page, the reference list and the settled outcome.
  The image model is a function of the number of calls settled so far and of the
  request, so that it may answer the same request differently at different times.
\<close>

record 'n image_call =
  call_page :: "'n StoryPage"
  call_refs :: "string list"
  call_result :: "exn + string"

record 'n seq_state =
  generatedImagesMap :: "'n \<rightharpoonup> string"
  story :: "'n StoryboardData option"
  calls :: "'n image_call list"

text \<open>\<open>initialStory.pages[0]?.id\<close>\<close>

definition firstPageId :: "'n StoryboardData \<Rightarrow> 'n option" where
  "firstPageId initialStory = (case pages initialStory of [] \<Rightarrow> None | p # _ \<Rightarrow> Some (page_id p))"

text \<open>The reference array built at the start of each iteration: the anchor, then the
  context.\<close>

definition seq_refs :: "'n number_ops \<Rightarrow> 'n option \<Rightarrow> ('n \<rightharpoonup> string) \<Rightarrow> 'n StoryPage \<Rightarrow> string list" where
  "seq_refs ops fpid m page =
     (case fpid of
        Some f \<Rightarrow> (case m f of Some u \<Rightarrow> if page_id page \<noteq> f then [u] else [] | None \<Rightarrow> [])
      | None \<Rightarrow> [])
     @ (let prevPageId = minus_one ops (page_id page) in
        case m prevPageId of
          Some u \<Rightarrow> if Some prevPageId \<noteq> fpid then [u] else []
        | None \<Rightarrow> [])"

text \<open>The two functional updates of the React state.\<close>

definition seq_success_update :: "'n StoryboardData \<Rightarrow> 'n StoryPage \<Rightarrow> string \<Rightarrow> 'n StoryboardData option \<Rightarrow> 'n StoryboardData option" where
  "seq_success_update initialStory page imageUrl prev =
     (case prev of
        None \<Rightarrow> None
      | Some s \<Rightarrow>
          if uid s \<noteq> uid initialStory then Some s
          else Some (s\<lparr>pages := map (\<lambda>p. if page_id p = page_id page
                                         then p\<lparr>image_url := Some imageUrl, is_generating := False\<rparr>
                                         else p) (pages s)\<rparr>))"

definition seq_failure_update :: "'n StoryboardData \<Rightarrow> 'n StoryPage \<Rightarrow> 'n StoryboardData option \<Rightarrow> 'n StoryboardData option" where
  "seq_failure_update initialStory page prev =
     (case prev of
        None \<Rightarrow> None
      | Some s \<Rightarrow>
          if uid s \<noteq> uid initialStory then Some s
          else Some (s\<lparr>pages := map (\<lambda>p. if page_id p = page_id page
                                         then p\<lparr>is_generating := False, error := Some ''Failed to load image''\<rparr>
                                         else p) (pages s)\<rparr>))"

text \<open>One iteration of \<open>for (const page of initialStory.pages)\<close>.\<close>

definition seq_step ::
  "'n number_ops \<Rightarrow> prompt_text \<Rightarrow> (nat \<Rightarrow> part list \<Rightarrow> exn + response) \<Rightarrow> 'n StoryboardData \<Rightarrow> VisualComplexity
   \<Rightarrow> 'n seq_state \<Rightarrow> 'n StoryPage \<Rightarrow> 'n seq_state"
where
  "seq_step ops pt ai initialStory comp_v st page =
     (let refs = seq_refs ops (firstPageId initialStory) (generatedImagesMap st) page;
          outcome = generatePageImage ops pt (ai (length (calls st))) (action_description page)
                      \<lparr>globalPrompt = Some (visual_style_guide initialStory),
                       blueprint = Some (character_blueprint initialStory),
                       complexity = comp_v\<rparr> refs;
          logged = calls st @ [\<lparr>call_page = page, call_refs = refs, call_result = outcome\<rparr>]
      in case outcome of
           Inr imageUrl \<Rightarrow>
             \<lparr>generatedImagesMap = (generatedImagesMap st)(page_id page \<mapsto> imageUrl),
              story = seq_success_update initialStory page imageUrl (story st),
              calls = logged\<rparr>
         | Inl err \<Rightarrow>
             \<lparr>generatedImagesMap = generatedImagesMap st,
              story = seq_failure_update initialStory page (story st),
              calls = logged\<rparr>)"

fun seq_loop ::
  "'n number_ops \<Rightarrow> prompt_text \<Rightarrow> (nat \<Rightarrow> part list \<Rightarrow> exn + response) \<Rightarrow> 'n StoryboardData \<Rightarrow> VisualComplexity
   \<Rightarrow> 'n seq_state \<Rightarrow> 'n StoryPage list \<Rightarrow> 'n seq_state"
where
  "seq_loop ops pt ai initialStory comp_v st [] = st"
| "seq_loop ops pt ai initialStory comp_v st (page # rest) =
     seq_loop ops pt ai initialStory comp_v (seq_step ops pt ai initialStory comp_v st page) rest"

text \<open>The whole function, started in the React state \<open>current\<close> (the caller has just set
  it to \<open>Some initialStory\<close>).\<close>

definition generateImagesSequence ::
  "'n number_ops \<Rightarrow> prompt_text \<Rightarrow> (nat \<Rightarrow> part list \<Rightarrow> exn + response) \<Rightarrow> 'n StoryboardData option
   \<Rightarrow> 'n StoryboardData \<Rightarrow> VisualComplexity \<Rightarrow> 'n seq_state"
where
  "generateImagesSequence ops pt ai current initialStory comp_v =
     seq_loop ops pt ai initialStory comp_v
       \<lparr>generatedImagesMap = Map.empty, story = current, calls = []\<rparr>
       (pages initialStory)"

section \<open>Per-page regeneration (App.tsx, handleRegenerateImage)\<close>

text \<open>The three functional updates of the React state: at the start, on success, on
  failure. None of them looks at the story's \<open>uid\<close>.\<close>

definition regen_begin_update :: "'n \<Rightarrow> 'n StoryboardData option \<Rightarrow> 'n StoryboardData option" where
  "regen_begin_update pageId prev =
     (case prev of
        None \<Rightarrow> None
      | Some s \<Rightarrow> Some (s\<lparr>pages := map (\<lambda>p. if page_id p = pageId
                                         then p\<lparr>is_generating := True, error := None\<rparr>
                                         else p) (pages s)\<rparr>))"

definition regen_success_update :: "'n \<Rightarrow> string \<Rightarrow> 'n StoryboardData option \<Rightarrow> 'n StoryboardData option" where
  "regen_success_update pageId imageUrl prev =
     (case prev of
        None \<Rightarrow> None
      | Some s \<Rightarrow> Some (s\<lparr>pages := map (\<lambda>p. if page_id p = pageId
                                         then p\<lparr>image_url := Some imageUrl, is_generating := False\<rparr>
                                         else p) (pages s)\<rparr>))"

definition regen_failure_update :: "'n \<Rightarrow> 'n StoryboardData option \<Rightarrow> 'n StoryboardData option" where
  "regen_failure_update pageId prev =
     (case prev of
        None \<Rightarrow> None
      | Some s \<Rightarrow> Some (s\<lparr>pages := map (\<lambda>p. if page_id p = pageId
                                         then p\<lparr>is_generating := False, error := Some ''Retry failed''\<rparr>
                                         else p) (pages s)\<rparr>))"

text \<open>\<open>story.pages[0]\<close>\<close>

definition firstPage :: "'n StoryboardData \<Rightarrow> 'n StoryPage option" where
  "firstPage s = (case pages s of [] \<Rightarrow> None | p # _ \<Rightarrow> Some p)"

text \<open>The references are read from the pages of the story: the first page's image, when
  it is a non-empty string and the first page is not the one regenerated, then the
  image of the first page whose id is \<open>pageId - 1\<close>, when it is a non-empty string and
  that page's id is not the first page's id.\<close>

definition regen_refs :: "'n number_ops \<Rightarrow> 'n StoryboardData \<Rightarrow> 'n \<Rightarrow> string list" where
  "regen_refs ops s pageId =
     (case firstPage s of
        Some fp \<Rightarrow>
          (case image_url fp of
             Some u \<Rightarrow> if u \<noteq> [] \<and> page_id fp \<noteq> pageId then [u] else []
           | None \<Rightarrow> [])
      | None \<Rightarrow> [])
     @ (case find (\<lambda>p. page_id p = minus_one ops pageId) (pages s) of
          Some prevPage \<Rightarrow>
            (case image_url prevPage of
               Some u \<Rightarrow> if u \<noteq> [] \<and> Some (page_id prevPage) \<noteq> map_option page_id (firstPage s)
                         then [u] else []
             | None \<Rightarrow> [])
        | None \<Rightarrow> [])"

text \<open>
  The handler reads \<open>story\<close> from its closure (\<open>story_v\<close>, the story that was shown
  when the handler was created) and updates the React state \<open>current\<close> through
  \<open>setStory\<close>; the two are the same story unless the state changed in between. The
  result is the final React state and the call that was made, if one was.
\<close>

definition handleRegenerateImage ::
  "'n number_ops \<Rightarrow> prompt_text \<Rightarrow> (part list \<Rightarrow> exn + response) \<Rightarrow> VisualComplexity \<Rightarrow> 'n StoryboardData option
   \<Rightarrow> 'n StoryboardData option \<Rightarrow> 'n \<Rightarrow> 'n StoryboardData option \<times> 'n image_call option"
where
  "handleRegenerateImage ops pt generateContent complexity_v story_v current pageId =
     (case story_v of
        None \<Rightarrow> (current, None)
      | Some s \<Rightarrow>
          (let marked = regen_begin_update pageId current in
           case find (\<lambda>p. page_id p = pageId) (pages s) of
             None \<Rightarrow> (marked, None)
           | Some page \<Rightarrow>
               (let refs = regen_refs ops s pageId;
                    outcome = generatePageImage ops pt generateContent (action_description page)
                                \<lparr>globalPrompt = Some (visual_style_guide s),
                                 blueprint = Some (character_blueprint s),
                                 complexity = complexity_v\<rparr> refs;
                    logged = Some \<lparr>call_page = page, call_refs = refs, call_result = outcome\<rparr>
                in case outcome of
                     Inr imageUrl \<Rightarrow> (regen_success_update pageId imageUrl marked, logged)
                   | Inl err \<Rightarrow> (regen_failure_update pageId marked, logged))))"

section \<open>The local store (storageService)\<close>

text \<open>
  IndexedDB is the platform's: the object store \<open>stories\<close> is created with
  \<open>keyPath: 'uid'\<close>, so it holds at most one record per uid, \<open>put\<close> replaces the
  record with the same key, and \<open>getAll\<close> returns the records in ascending key order
  (strings compare by their code units, lexicographically). The store is modelled as
  the list of its records in key order. What can go wrong is a parameter: opening the
  database may fail, \<open>db.transaction\<close> may throw, and the request may fire
  \<open>onerror\<close>.
\<close>

record idb_faults =
  open_error :: "exn option"
  transaction_error :: "exn option"
  request_error :: "exn option"

type_synonym 'n object_store = "'n StoryboardData list"

fun idb_put :: "'n StoryboardData \<Rightarrow> 'n object_store \<Rightarrow> 'n object_store" where
  "idb_put x [] = [x]"
| "idb_put x (y # ys) =
     (if uid x = uid y then x # ys
      else if uid x < uid y then x # y # ys
      else y # idb_put x ys)"

text \<open>
  \<open>Array.prototype.sort\<close> with a comparator, modelled as a stable insertion sort:
  \<open>x\<close> goes before the first \<open>y\<close> with \<open>cmp x y \<le> 0\<close>.
\<close>

fun insert_by :: "('a \<Rightarrow> 'a \<Rightarrow> int) \<Rightarrow> 'a \<Rightarrow> 'a list \<Rightarrow> 'a list" where
  "insert_by cmp x [] = [x]"
| "insert_by cmp x (y # ys) = (if cmp x y \<le> 0 then x # y # ys else y # insert_by cmp x ys)"

fun Array_sort :: "('a \<Rightarrow> 'a \<Rightarrow> int) \<Rightarrow> 'a list \<Rightarrow> 'a list" where
  "Array_sort cmp [] = []"
| "Array_sort cmp (x # xs) = insert_by cmp x (Array_sort cmp xs)"

text \<open>The comparator \<open>(a, b) => b.createdAt - a.createdAt\<close>.\<close>

definition newest_first :: "'n StoryboardData \<Rightarrow> 'n StoryboardData \<Rightarrow> int" where
  "newest_first a b = createdAt b - createdAt a"

text \<open>
  An \<open>async\<close> function settles as the promise it returns. Both functions
  \<open>await initDB()\<close> inside \<open>try\<close>, so a failure to open the database reaches their
  \<open>catch\<close>. The promise of the request is returned without \<open>await\<close>, so when it is
  rejected (the request's \<open>onerror\<close>, or an exception thrown inside the promise's
  executor by \<open>db.transaction\<close>) the function's own promise is rejected and the
  \<open>catch\<close> is not run. The \<open>catch\<close> of \<open>saveStoryToDB\<close> rethrows; that of
  \<open>getHistoryFromDB\<close> returns the empty list.
\<close>

definition saveStoryToDB :: "idb_faults \<Rightarrow> 'n StoryboardData \<Rightarrow> 'n object_store \<Rightarrow> (exn + unit) \<times> 'n object_store" where
  "saveStoryToDB faults story_v store =
     (case open_error faults of
        Some e \<Rightarrow> (Inl e, store)
      | None \<Rightarrow>
          (case transaction_error faults of
             Some e \<Rightarrow> (Inl e, store)
           | None \<Rightarrow>
               (case request_error faults of
                  Some e \<Rightarrow> (Inl e, store)
                | None \<Rightarrow> (Inr (), idb_put story_v store))))"

definition getHistoryFromDB :: "idb_faults \<Rightarrow> 'n object_store \<Rightarrow> exn + 'n StoryboardData list" where
  "getHistoryFromDB faults store =
     (case open_error faults of
        Some e \<Rightarrow> Inr []
      | None \<Rightarrow>
          (case transaction_error faults of
             Some e \<Rightarrow> Inl e
           | None \<Rightarrow>
               (case request_error faults of
                  Some e \<Rightarrow> Inl e
                | None \<Rightarrow> Inr (Array_sort newest_first store))))"

section \<open>History and persistence (App.tsx)\<close>

text \<open>The database and the React state \<open>history\<close>.\<close>

record 'n app =
  db :: "'n object_store"
  history :: "'n StoryboardData list"

text \<open>The functional update passed to \<open>setHistory\<close> by the persistence effect.\<close>

definition history_updater :: "'n StoryboardData \<Rightarrow> 'n StoryboardData list \<Rightarrow> 'n StoryboardData list" where
  "history_updater story_v prev =
     (if list_ex (\<lambda>h. uid h = uid story_v) prev
      then map (\<lambda>h. if uid h = uid story_v then story_v else h) prev
      else story_v # prev)"

text \<open>The persistence effect, run whenever \<open>story\<close> changes: the story is saved (a
  failure is logged and dropped) and the history is updated.\<close>

definition persistence_effect :: "idb_faults \<Rightarrow> 'n StoryboardData option \<Rightarrow> 'n app \<Rightarrow> 'n app" where
  "persistence_effect faults story_v a =
     (case story_v of
        None \<Rightarrow> a
      | Some s \<Rightarrow> \<lparr>db = snd (saveStoryToDB faults s (db a)), history = history_updater s (history a)\<rparr>)"

text \<open>\<open>loadHistory\<close>: when \<open>getHistoryFromDB\<close> rejects, \<open>setHistory\<close> is not reached.\<close>

definition loadHistory :: "idb_faults \<Rightarrow> 'n app \<Rightarrow> 'n app" where
  "loadHistory faults a =
     (case getHistoryFromDB faults (db a) of
        Inr saved \<Rightarrow> a\<lparr>history := saved\<rparr>
      | Inl e \<Rightarrow> a)"

text \<open>What happens to the database and the history over time: stories are saved and the
  history is loaded.\<close>

datatype 'n app_event = Save idb_faults "'n StoryboardData" | Load idb_faults

fun app_step :: "'n app \<Rightarrow> 'n app_event \<Rightarrow> 'n app" where
  "app_step a (Save faults s) = persistence_effect faults (Some s) a"
| "app_step a (Load faults) = loadHistory faults a"

definition run_events :: "'n app_event list \<Rightarrow> 'n app \<Rightarrow> 'n app" where
  "run_events evs a = foldl app_step a evs"

section \<open>Vocabulary of the statements about the sequencer\<close>

text \<open>The style configuration every call of the sequencer passes.\<close>

abbreviation seq_style :: "'n StoryboardData \<Rightarrow> VisualComplexity \<Rightarrow> 'n styleConfig" where
  "seq_style initialStory comp_v \<equiv>
     \<lparr>globalPrompt = Some (visual_style_guide initialStory),
      blueprint = Some (character_blueprint initialStory),
      complexity = comp_v\<rparr>"

text \<open>
  \<open>latest_image earlier k\<close> reads a log of settled calls, without the loop's map: the
  image of the last call in \<open>earlier\<close> that was made for a page with id \<open>k\<close> and
  succeeded, if there is one.
\<close>

fun latest_image :: "'n image_call list \<Rightarrow> 'n \<Rightarrow> string option" where
  "latest_image [] k = None"
| "latest_image (c # cs) k =
     (case latest_image cs k of
        Some u \<Rightarrow> Some u
      | None \<Rightarrow> (if page_id (call_page c) = k
                 then (case call_result c of Inr u \<Rightarrow> Some u | Inl e \<Rightarrow> None)
                 else None))"

text \<open>The call the loop issues for \<open>page\<close> after the calls \<open>earlier\<close> have settled,
  \<open>k\<close> of them.\<close>

definition issued ::
  "'n number_ops \<Rightarrow> prompt_text \<Rightarrow> (nat \<Rightarrow> part list \<Rightarrow> exn + response) \<Rightarrow> 'n StoryboardData \<Rightarrow> VisualComplexity
   \<Rightarrow> 'n image_call list \<Rightarrow> nat \<Rightarrow> 'n StoryPage \<Rightarrow> 'n image_call"
where
  "issued ops pt ai initialStory comp_v earlier k page =
     \<lparr>call_page = page,
      call_refs = seq_refs ops (firstPageId initialStory) (latest_image earlier) page,
      call_result = generatePageImage ops pt (ai k) (action_description page)
         (seq_style initialStory comp_v)
         (seq_refs ops (firstPageId initialStory) (latest_image earlier) page)\<rparr>"

text \<open>
  The reference list in the specification's words, by position in the page list: the
  first page's image, when it was generated and the current page is not the first,
  then the image of the page just before the current one, when it was generated and
  that page is not the first.
\<close>

definition spec_refs :: "'n image_call list \<Rightarrow> nat \<Rightarrow> string list" where
  "spec_refs L k =
     (if k \<noteq> 0 then (case call_result (L ! 0) of Inr u \<Rightarrow> [u] | Inl e \<Rightarrow> []) else [])
     @ (if 2 \<le> k then (case call_result (L ! (k - 1)) of Inr u \<Rightarrow> [u] | Inl e \<Rightarrow> []) else [])"

text \<open>The log of a whole run.\<close>

abbreviation sequence_calls ::
  "'n number_ops \<Rightarrow> prompt_text \<Rightarrow> (nat \<Rightarrow> part list \<Rightarrow> exn + response) \<Rightarrow> 'n StoryboardData option
   \<Rightarrow> 'n StoryboardData \<Rightarrow> VisualComplexity \<Rightarrow> 'n image_call list"
where
  "sequence_calls ops pt ai current initialStory comp_v \<equiv>
     calls (generateImagesSequence ops pt ai current initialStory comp_v)"



section \<open>Concrete inputs\<close>

text \<open>
  Numbers for the concrete inputs: small integers, on which the subtraction of doubles
  is exact (as it is for every integer of magnitude below \<open>2^53\<close>) and the text of a
  number is its decimal digits. Every concrete input below stays within single digits.
\<close>

definition int_ops :: "int number_ops" where
  "int_ops = \<lparr>minus_one = (\<lambda>x. x - 1),
     number_text = (\<lambda>x. if x < 0 then CHR ''-'' # show_nat (nat (- x)) else show_nat (nat x))\<rparr>"

text \<open>A small story with chosen page ids, an image model that answers call \<open>n\<close> with a
  PNG whose data is the decimal \<open>n\<close>, and one whose second call (\<open>n = 1\<close>) fails.\<close>

definition demo_prompt :: prompt_text where
  "demo_prompt = \<lparr>task_header = ''TASK '', scene_header = '' SCENE: '',
     generation_rules = ''. RULES'', reference_handling = '' REFERENCES''\<rparr>"

definition demo_blueprint :: "int CharacterBlueprint" where
  "demo_blueprint = \<lparr>age = 7, hair = ''brown'', skin_tone = ''tan'', clothing = ''red shirt'',
     expression_style = ''calm'', accessories = None\<rparr>"

definition demo_page :: "int \<Rightarrow> int StoryPage" where
  "demo_page i = \<lparr>page_id = i, page_text = ''Timmy shares.'', action_description = ''Wide shot'',
     image_url = None, is_generating = True, error = None\<rparr>"

definition demo_story :: "int list \<Rightarrow> int StoryboardData" where
  "demo_story ids = \<lparr>uid = ''k3x9'', createdAt = 1700000000000, title = ''Learning to Share'',
     purpose = ''Sharing'', character_blueprint = demo_blueprint,
     visual_style_guide = ''Soft watercolor'', pages = map demo_page ids\<rparr>"

definition png_model :: "nat \<Rightarrow> part list \<Rightarrow> exn + response" where
  "png_model n request = Inr (Some [Some (Some [InlineData (Some ''image/png'') (Some (show_nat n))])])"

definition flaky_model :: "nat \<Rightarrow> part list \<Rightarrow> exn + response" where
  "flaky_model n request = (if n = 1 then Inl (ApiError ''503'') else png_model n request)"

text \<open>An image model that rejects every call, and a story whose pages all have an
  image.\<close>

definition offline_model :: "nat \<Rightarrow> part list \<Rightarrow> exn + response" where
  "offline_model n request = Inl (ApiError ''offline'')"



text \<open>An image model that answers with text and an inline part without data, and a
  reference list whose second entry is not a data URL.\<close>

definition silent_model :: "nat \<Rightarrow> part list \<Rightarrow> exn + response" where
  "silent_model n request = Inr (Some [Some (Some [TextPart ''I cannot draw this.'', InlineData (Some ''image/png'') (Some [])])])"

definition demo_refs :: "string list" where
  "demo_refs = [''data:image/png;base64,AAAA'', ''http://example.com/a.png'']"

text \<open>A database without faults, and a stored story with a chosen uid and creation
  time.\<close>

definition no_faults :: idb_faults where
  "no_faults = \<lparr>open_error = None, transaction_error = None, request_error = None\<rparr>"

definition saved_story :: "string \<Rightarrow> int \<Rightarrow> int StoryboardData" where
  "saved_story u t = (demo_story [1, 2])\<lparr>uid := u, createdAt := t\<rparr>"

text \<open>
  For the storyboard service: a prompt text, a clock, a text model that answers without
  text, one that answers with the text \<open>{"uid":1,"pages":[]}\<close> and one that rejects;
  and two stand-ins for \<open>JSON.parse\<close> that agree with it on the texts they accept.
\<close>

definition demo_storyboard_prompt :: storyboard_prompt_text where
  "demo_storyboard_prompt = \<lparr>before_story = ''Story: '', before_complexity = '' Complexity: '',
     before_gender = '' Gender: '', after_gender = '' Return JSON.''\<rparr>"

definition demo_env :: clock_and_dice where
  "demo_env = \<lparr>now_uid = 1700000000000, random36 = ''0.4fzyo82mvyr'', now_createdAt = 1700000000001\<rparr>"

definition parse_braces :: "string \<Rightarrow> exn + json" where
  "parse_braces s = (if s = ''{}'' then Inr (JObject []) else Inl (SyntaxError ''Unexpected token''))"

definition blank_model :: "string \<Rightarrow> exn + string option" where
  "blank_model prompt = Inr None"

definition demo_response_text :: string where
  "demo_response_text = ''{'' @ [CHR 0x22] @ ''uid'' @ [CHR 0x22] @ '':1,'' @ [CHR 0x22] @ ''pages'' @ [CHR 0x22] @ '':[]}''"

definition demo_JSON_parse :: "string \<Rightarrow> exn + json" where
  "demo_JSON_parse s =
     (if s = ''{}'' then Inr (JObject [])
      else if s = demo_response_text then Inr (JObject [(''uid'', JNumber 1), (''pages'', JArray [])])
      else Inl (SyntaxError ''Unexpected token''))"

definition json_model :: "string \<Rightarrow> exn + string option" where
  "json_model prompt = Inr (Some demo_response_text)"

definition offline_text_model :: "string \<Rightarrow> exn + string option" where
  "offline_text_model prompt = Inl (ApiError ''offline'')"

section \<open>The image service: data URLs and the first image\<close>

lemma greedy_split_sound:
  "greedy_split n s = Some (a, b) \<Longrightarrow> a \<noteq> [] \<and> b \<noteq> [] \<and> s = a @ '';base64,'' @ b"
proof (induction n)
  case 0
  then show ?case by simp
next
  case (Suc n)
  show ?case
  proof (cases "take 8 (drop (Suc n) s) = '';base64,'' \<and> drop 8 (drop (Suc n) s) \<noteq> []")
    case True
    then have ab: "a = take (Suc n) s" "b = drop 8 (drop (Suc n) s)"
      using Suc.prems by simp_all
    have "s = take (Suc n) s @ take 8 (drop (Suc n) s) @ drop 8 (drop (Suc n) s)"
      by (simp only: append_take_drop_id)
    moreover have "take (Suc n) s \<noteq> []"
      using True by (cases s) auto
    ultimately show ?thesis using True ab by simp
  next
    case False
    then have "greedy_split n s = Some (a, b)" using Suc.prems by auto
    then show ?thesis by (rule Suc.IH)
  qed
qed

lemma greedy_split_complete:
  "s = a @ '';base64,'' @ b \<Longrightarrow> a \<noteq> [] \<Longrightarrow> b \<noteq> [] \<Longrightarrow> length a \<le> n \<Longrightarrow>
   greedy_split n s \<noteq> None"
proof (induction n)
  case 0
  then show ?case by simp
next
  case (Suc n)
  show ?case
  proof (cases "length a = Suc n")
    case True
    then have "take 8 (drop (Suc n) s) = '';base64,''" "drop 8 (drop (Suc n) s) = b"
      using Suc.prems(1) by simp_all
    then show ?thesis using Suc.prems(3) by simp
  next
    case False
    then have "length a \<le> n" using Suc.prems(4) by simp
    then have "greedy_split n s \<noteq> None"
      using Suc.IH Suc.prems by blast
    then show ?thesis by auto
  qed
qed

lemma match_data_url_iff:
  "match_data_url url \<noteq> None \<longleftrightarrow>
     (\<exists>m d. m \<noteq> [] \<and> d \<noteq> [] \<and> url = ''data:'' @ m @ '';base64,'' @ d
        \<and> \<not> list_ex line_terminator url)"
proof
  assume "match_data_url url \<noteq> None"
  then obtain a b where ab: "match_data_url url = Some (a, b)" by auto
  then have pre: "take 5 url = ''data:''" and nl: "\<not> list_ex line_terminator url"
    and gs: "greedy_split (length url - 5) (drop 5 url) = Some (a, b)"
    by (auto simp: match_data_url_def split: if_splits)
  from greedy_split_sound [OF gs]
  have "a \<noteq> []" "b \<noteq> []" and d: "drop 5 url = a @ '';base64,'' @ b" by simp_all
  moreover have "url = take 5 url @ drop 5 url" by simp
  then have "url = ''data:'' @ a @ '';base64,'' @ b" using pre d by simp
  ultimately show "\<exists>m d. m \<noteq> [] \<and> d \<noteq> [] \<and> url = ''data:'' @ m @ '';base64,'' @ d
        \<and> \<not> list_ex line_terminator url"
    using nl by blast
next
  assume "\<exists>m d. m \<noteq> [] \<and> d \<noteq> [] \<and> url = ''data:'' @ m @ '';base64,'' @ d
        \<and> \<not> list_ex line_terminator url"
  then obtain m d where md: "m \<noteq> []" "d \<noteq> []" "url = ''data:'' @ m @ '';base64,'' @ d"
    and nl: "\<not> list_ex line_terminator url" by blast
  have "drop 5 url = m @ '';base64,'' @ d" using md(3) by simp
  moreover have "length m \<le> length url - 5" using md(3) by simp
  ultimately have "greedy_split (length url - 5) (drop 5 url) \<noteq> None"
    using md(1,2) greedy_split_complete by blast
  moreover have "take 5 url = ''data:''" using md(3) by simp
  ultimately show "match_data_url url \<noteq> None"
    using nl by (simp add: match_data_url_def)
qed

lemma reference_parts_filter:
  "reference_parts urls =
     map (\<lambda>url. InlineData (Some (fst (the (match_data_url url)))) (Some (snd (the (match_data_url url)))))
       (filter (\<lambda>url. match_data_url url \<noteq> None) urls)"
  by (induction urls) (auto split: option.splits)

lemma find_holds: "find P xs = Some x \<Longrightarrow> P x"
  by (induction xs) (auto split: if_splits)

lemma first_image_find:
  "first_image ps =
     (case find has_image ps of
        None \<Rightarrow> Inl (Error ''No image data returned'')
      | Some p \<Rightarrow> (case p of InlineData mimeType d \<Rightarrow> Inr (data_url mimeType (the d)) | TextPart t \<Rightarrow> Inl (Error ''No image data returned'')))"
  by (induction ps rule: first_image.induct) auto

text \<open>
  C10. \<open>generatePageImage\<close> has a result for every reference list. The request it sends
  holds one inline part for each reference that matches the pattern, in order, and the
  text prompt; a reference that does not match contributes nothing and raises nothing.
  A reference matches exactly when it is \<open>data:<mime>;base64,<data>\<close> with a non-empty
  mime type and non-empty data and has no line terminator. The result is the model's
  own error when the call is rejected, the error "No image data returned" when no part
  of the response carries image data, and otherwise the string
  \<open>data:<mime>;base64,<data>\<close> built from the first part that carries image data.
\<close>

theorem generatePageImage_total:
  "request_parts ops pt pageDesc cfg refs =
     map (\<lambda>url. InlineData (Some (fst (the (match_data_url url)))) (Some (snd (the (match_data_url url)))))
       (filter (\<lambda>url. match_data_url url \<noteq> None) refs)
     @ [TextPart (finalPrompt ops pt pageDesc cfg refs)] \<and>
   (match_data_url url \<noteq> None \<longleftrightarrow>
      (\<exists>m d. m \<noteq> [] \<and> d \<noteq> [] \<and> url = ''data:'' @ m @ '';base64,'' @ d
         \<and> \<not> list_ex line_terminator url)) \<and>
   (generateContent (request_parts ops pt pageDesc cfg refs) = Inl e \<longrightarrow>
      generatePageImage ops pt generateContent pageDesc cfg refs = Inl e) \<and>
   (generateContent (request_parts ops pt pageDesc cfg refs) = Inr r \<and>
    find has_image (response_parts r) = None \<longrightarrow>
      generatePageImage ops pt generateContent pageDesc cfg refs = Inl (Error ''No image data returned'')) \<and>
   (generateContent (request_parts ops pt pageDesc cfg refs) = Inr r \<and>
    find has_image (response_parts r) = Some (InlineData mimeType (Some d)) \<longrightarrow>
      d \<noteq> [] \<and>
      generatePageImage ops pt generateContent pageDesc cfg refs =
        Inr (''data:'' @ (case mimeType of Some m \<Rightarrow> m | None \<Rightarrow> ''undefined'') @ '';base64,'' @ d)) \<and>
   (\<forall>p. find has_image (response_parts r) = Some p \<longrightarrow> (\<exists>mimeType d. p = InlineData mimeType (Some d)))"
proof -
  have req: "request_parts ops pt pageDesc cfg refs =
     map (\<lambda>url. InlineData (Some (fst (the (match_data_url url)))) (Some (snd (the (match_data_url url)))))
       (filter (\<lambda>url. match_data_url url \<noteq> None) refs)
     @ [TextPart (finalPrompt ops pt pageDesc cfg refs)]"
    unfolding request_parts_def by (simp only: reference_parts_filter)
  have rejected: "generatePageImage ops pt generateContent pageDesc cfg refs = Inl e"
    if "generateContent (request_parts ops pt pageDesc cfg refs) = Inl e"
    using that by (simp add: generatePageImage_def)
  have none: "generatePageImage ops pt generateContent pageDesc cfg refs = Inl (Error ''No image data returned'')"
    if "generateContent (request_parts ops pt pageDesc cfg refs) = Inr r"
      "find has_image (response_parts r) = None"
    using that by (simp add: generatePageImage_def first_image_find)
  have some: "d \<noteq> [] \<and> generatePageImage ops pt generateContent pageDesc cfg refs =
        Inr (''data:'' @ (case mimeType of Some m \<Rightarrow> m | None \<Rightarrow> ''undefined'') @ '';base64,'' @ d)"
    if "generateContent (request_parts ops pt pageDesc cfg refs) = Inr r"
      "find has_image (response_parts r) = Some (InlineData mimeType (Some d))"
  proof -
    have "has_image (InlineData mimeType (Some d))"
      using that(2) by (rule find_holds)
    then show ?thesis
      using that by (simp add: generatePageImage_def first_image_find data_url_def)
  qed
  have shape: "\<exists>mimeType d. p = InlineData mimeType (Some d)"
    if "find has_image (response_parts r) = Some p" for p
  proof -
    have "has_image p" using that by (rule find_holds)
    then show ?thesis by (cases p rule: has_image.cases) auto
  qed
  show ?thesis
    using req match_data_url_iff [of url] rejected none some shape by blast
qed

theorem generatePageImage_total_witness:
  "offline_model 0 (request_parts int_ops demo_prompt ''Wide shot'' (seq_style (demo_story [1]) RICH) demo_refs)
     = Inl (ApiError ''offline'') \<and>
   generatePageImage int_ops demo_prompt (offline_model 0) ''Wide shot'' (seq_style (demo_story [1]) RICH) demo_refs
     = Inl (ApiError ''offline'') \<and>
   silent_model 0 (request_parts int_ops demo_prompt ''Wide shot'' (seq_style (demo_story [1]) RICH) demo_refs)
     = Inr (Some [Some (Some [TextPart ''I cannot draw this.'', InlineData (Some ''image/png'') (Some [])])]) \<and>
   find has_image (response_parts (Some [Some (Some [TextPart ''I cannot draw this.'', InlineData (Some ''image/png'') (Some [])])]))
     = None \<and>
   generatePageImage int_ops demo_prompt (silent_model 0) ''Wide shot'' (seq_style (demo_story [1]) RICH) demo_refs
     = Inl (Error ''No image data returned'') \<and>
   png_model 3 (request_parts int_ops demo_prompt ''Wide shot'' (seq_style (demo_story [1]) RICH) demo_refs)
     = Inr (Some [Some (Some [InlineData (Some ''image/png'') (Some ''3'')])]) \<and>
   find has_image (response_parts (Some [Some (Some [InlineData (Some ''image/png'') (Some ''3'')])]))
     = Some (InlineData (Some ''image/png'') (Some ''3'')) \<and>
   generatePageImage int_ops demo_prompt (png_model 3) ''Wide shot'' (seq_style (demo_story [1]) RICH) demo_refs
     = Inr ''data:image/png;base64,3'' \<and>
   match_data_url ''http://example.com/a.png'' = None \<and>
   reference_parts demo_refs = [InlineData (Some ''image/png'') (Some ''AAAA'')]"
proof -
  let ?cfg = "seq_style (demo_story [1]) RICH"
  have off: "offline_model 0 (request_parts int_ops demo_prompt ''Wide shot'' ?cfg demo_refs) = Inl (ApiError ''offline'')"
    by (simp add: offline_model_def)
  have sil: "silent_model 0 (request_parts int_ops demo_prompt ''Wide shot'' ?cfg demo_refs)
     = Inr (Some [Some (Some [TextPart ''I cannot draw this.'', InlineData (Some ''image/png'') (Some [])])])"
    by (simp add: silent_model_def)
  have sil_none: "find has_image (response_parts (Some [Some (Some [TextPart ''I cannot draw this.'', InlineData (Some ''image/png'') (Some [])])]))
     = None"
    by (simp add: response_parts_def)
  have png: "png_model 3 (request_parts int_ops demo_prompt ''Wide shot'' ?cfg demo_refs)
     = Inr (Some [Some (Some [InlineData (Some ''image/png'') (Some ''3'')])])"
    by code_simp
  have png_some: "find has_image (response_parts (Some [Some (Some [InlineData (Some ''image/png'') (Some ''3'')])]))
     = Some (InlineData (Some ''image/png'') (Some ''3''))"
    by (simp add: response_parts_def)
  have bad: "match_data_url ''http://example.com/a.png'' = None"
    by (simp add: match_data_url_def)
  have parts: "reference_parts demo_refs = [InlineData (Some ''image/png'') (Some ''AAAA'')]"
    by code_simp
  have a: "generatePageImage int_ops demo_prompt (offline_model 0) ''Wide shot'' ?cfg demo_refs = Inl (ApiError ''offline'')"
    using generatePageImage_total [where generateContent = "offline_model 0" and pt = demo_prompt
        and pageDesc = "''Wide shot''" and cfg = "?cfg" and refs = demo_refs and e = "ApiError ''offline''"] off
    by blast
  have b: "generatePageImage int_ops demo_prompt (silent_model 0) ''Wide shot'' ?cfg demo_refs = Inl (Error ''No image data returned'')"
    using generatePageImage_total [where generateContent = "silent_model 0" and pt = demo_prompt
        and pageDesc = "''Wide shot''" and cfg = "?cfg" and refs = demo_refs
        and r = "Some [Some (Some [TextPart ''I cannot draw this.'', InlineData (Some ''image/png'') (Some [])])]"]
      sil sil_none
    by blast
  have "generatePageImage int_ops demo_prompt (png_model 3) ''Wide shot'' ?cfg demo_refs =
      Inr (''data:'' @ (case Some ''image/png'' of Some m \<Rightarrow> m | None \<Rightarrow> ''undefined'') @ '';base64,'' @ ''3'')"
    using generatePageImage_total [where generateContent = "png_model 3" and pt = demo_prompt
        and pageDesc = "''Wide shot''" and cfg = "?cfg" and refs = demo_refs
        and r = "Some [Some (Some [InlineData (Some ''image/png'') (Some ''3'')])]"
        and mimeType = "Some ''image/png''" and d = "''3''"]
      png png_some
    by blast
  then have c: "generatePageImage int_ops demo_prompt (png_model 3) ''Wide shot'' ?cfg demo_refs
      = Inr ''data:image/png;base64,3''"
    by simp
  show ?thesis
    using off sil sil_none png png_some bad parts a b c by blast
qed

section \<open>The sequencer's log\<close>

text \<open>The loop keeps \<open>generatedImagesMap\<close> equal to \<open>latest_image\<close> of its log, and
  appends one call per page.\<close>

lemma latest_image_snoc:
  "latest_image (cs @ [c]) k =
     (if page_id (call_page c) = k
      then (case call_result c of Inr u \<Rightarrow> Some u | Inl e \<Rightarrow> latest_image cs k)
      else latest_image cs k)"
  by (induction cs) (auto split: option.splits sum.splits)

lemma seq_step_calls:
  "generatedImagesMap st = latest_image (calls st) \<Longrightarrow>
   calls (seq_step ops pt ai initialStory comp_v st page) =
     calls st @ [issued ops pt ai initialStory comp_v (calls st) (length (calls st)) page]"
  by (simp add: seq_step_def issued_def Let_def split: sum.splits)

lemma seq_step_inv:
  "generatedImagesMap st = latest_image (calls st) \<Longrightarrow>
   generatedImagesMap (seq_step ops pt ai initialStory comp_v st page) =
     latest_image (calls (seq_step ops pt ai initialStory comp_v st page))"
  by (auto simp: seq_step_def Let_def latest_image_snoc fun_eq_iff split: sum.splits)

lemma seq_loop_calls:
  "generatedImagesMap st = latest_image (calls st) \<Longrightarrow>
   length (calls (seq_loop ops pt ai initialStory comp_v st ps)) = length (calls st) + length ps \<and>
   take (length (calls st)) (calls (seq_loop ops pt ai initialStory comp_v st ps)) = calls st \<and>
   (\<forall>k<length ps. calls (seq_loop ops pt ai initialStory comp_v st ps) ! (length (calls st) + k) =
      issued ops pt ai initialStory comp_v
        (take (length (calls st) + k) (calls (seq_loop ops pt ai initialStory comp_v st ps)))
        (length (calls st) + k) (ps ! k))"
proof (induction ps arbitrary: st)
  case Nil
  then show ?case by simp
next
  case (Cons page rest)
  let ?st' = "seq_step ops pt ai initialStory comp_v st page"
  let ?F = "seq_loop ops pt ai initialStory comp_v ?st' rest"
  let ?c = "issued ops pt ai initialStory comp_v (calls st) (length (calls st)) page"
  have c: "calls ?st' = calls st @ [?c]"
    using Cons.prems by (rule seq_step_calls)
  have inv: "generatedImagesMap ?st' = latest_image (calls ?st')"
    using Cons.prems by (rule seq_step_inv)
  note IH = Cons.IH [OF inv]
  have len: "length (calls ?F) = length (calls st) + length (page # rest)"
    using IH c by simp
  have tk': "take (Suc (length (calls st))) (calls ?F) = calls st @ [?c]"
    using IH c by simp
  have tk: "take (length (calls st)) (calls ?F) = calls st"
  proof -
    have "take (length (calls st)) (take (Suc (length (calls st))) (calls ?F)) = calls st"
      unfolding tk' by simp
    then show ?thesis by (simp add: min_def)
  qed
  have at0: "calls ?F ! length (calls st) = ?c"
  proof -
    have "take (Suc (length (calls st))) (calls ?F) ! length (calls st) = ?c"
      unfolding tk' by simp
    then show ?thesis by simp
  qed
  have nth: "calls ?F ! (length (calls st) + k) =
      issued ops pt ai initialStory comp_v (take (length (calls st) + k) (calls ?F))
        (length (calls st) + k) ((page # rest) ! k)" if "k < length (page # rest)" for k
  proof (cases k)
    case 0
    then show ?thesis using at0 tk by simp
  next
    case (Suc j)
    then have "j < length rest" using that by simp
    then show ?thesis using IH c Suc by simp
  qed
  show ?case using len tk nth by simp
qed

lemma generateImagesSequence_calls:
  "length (calls (generateImagesSequence ops pt ai current initialStory comp_v)) = length (pages initialStory) \<and>
   (\<forall>k<length (pages initialStory).
      calls (generateImagesSequence ops pt ai current initialStory comp_v) ! k =
        issued ops pt ai initialStory comp_v
          (take k (calls (generateImagesSequence ops pt ai current initialStory comp_v))) k
          (pages initialStory ! k))"
  using seq_loop_calls [of "\<lparr>generatedImagesMap = Map.empty, story = current, calls = []\<rparr>"
      ops pt ai initialStory comp_v "pages initialStory"]
  by (simp add: generateImagesSequence_def fun_eq_iff)

lemma latest_image_absent:
  "k \<notin> set (map (\<lambda>c. page_id (call_page c)) cs) \<Longrightarrow> latest_image cs k = None"
  by (induction cs) auto

lemma latest_image_distinct:
  "distinct (map (\<lambda>c. page_id (call_page c)) cs) \<Longrightarrow> c \<in> set cs \<Longrightarrow>
   latest_image cs (page_id (call_page c)) = (case call_result c of Inr u \<Rightarrow> Some u | Inl e \<Rightarrow> None)"
proof (induction cs)
  case Nil
  then show ?case by simp
next
  case (Cons d ds)
  show ?case
  proof (cases "c \<in> set ds")
    case True
    then have "latest_image ds (page_id (call_page c)) =
        (case call_result c of Inr u \<Rightarrow> Some u | Inl e \<Rightarrow> None)"
      using Cons by simp
    moreover have "page_id (call_page d) \<noteq> page_id (call_page c)"
      using Cons.prems True by auto
    ultimately show ?thesis by (simp split: option.splits sum.splits)
  next
    case False
    then have cd: "c = d" using Cons.prems by simp
    have "page_id (call_page d) \<notin> set (map (\<lambda>c. page_id (call_page c)) ds)"
      using Cons.prems by simp
    then have "latest_image ds (page_id (call_page d)) = None"
      by (rule latest_image_absent)
    then show ?thesis using cd by simp
  qed
qed

lemma chained_refs:
  assumes dist: "distinct (map (\<lambda>c. page_id (call_page c)) L)"
    and pred: "\<forall>i. Suc i < length L \<longrightarrow>
        minus_one ops (page_id (call_page (L ! Suc i))) = page_id (call_page (L ! i))"
    and k: "k < length L"
  shows "seq_refs ops (Some (page_id (call_page (L ! 0)))) (latest_image (take k L)) (call_page (L ! k))
      = spec_refs L k"
proof -
  let ?id = "\<lambda>i. page_id (call_page (L ! i))"
  have inj: "?id i \<noteq> ?id j" if "i < length L" "j < length L" "i \<noteq> j" for i j
    using dist that by (simp add: distinct_conv_nth)
  have dk: "distinct (map (\<lambda>c. page_id (call_page c)) (take k L))"
    using dist by (simp add: distinct_take flip: take_map)
  have at: "latest_image (take k L) (?id j) =
      (case call_result (L ! j) of Inr u \<Rightarrow> Some u | Inl e \<Rightarrow> None)" if "j < k" for j
  proof -
    have "j < length (take k L)" using that k by simp
    then have "take k L ! j \<in> set (take k L)" by (rule nth_mem)
    then have mem: "L ! j \<in> set (take k L)" using that by simp
    show ?thesis using latest_image_distinct [OF dk mem] .
  qed
  show ?thesis
  proof (cases k)
    case 0
    then show ?thesis by (simp add: seq_refs_def spec_refs_def)
  next
    case (Suc j)
    have l0: "0 < length L" using k by arith
    have jl: "j < length L" using k Suc by arith
    have "k \<noteq> 0" using Suc by simp
    then have nf: "?id k \<noteq> ?id 0" using inj [OF k l0] by blast
    have "0 < k" using Suc by simp
    from at [OF this] have a0: "latest_image (take k L) (?id 0) =
        (case call_result (L ! 0) of Inr u \<Rightarrow> Some u | Inl e \<Rightarrow> None)" .
    have "j < k" using Suc by simp
    from at [OF this] have a1: "latest_image (take k L) (?id j) =
        (case call_result (L ! j) of Inr u \<Rightarrow> Some u | Inl e \<Rightarrow> None)" .
    have "Suc j < length L" using k Suc by simp
    then have "minus_one ops (?id (Suc j)) = ?id j" using pred by blast
    then have pk: "minus_one ops (?id k) = ?id j" using Suc by simp
    have first_iff: "?id j = ?id 0 \<longleftrightarrow> j = 0"
      using inj [OF jl l0] by auto
    have anchor: "(case latest_image (take k L) (?id 0) of
          Some u \<Rightarrow> if ?id k \<noteq> ?id 0 then [u] else [] | None \<Rightarrow> []) =
        (case call_result (L ! 0) of Inr u \<Rightarrow> [u] | Inl e \<Rightarrow> [])"
      using nf by (simp add: a0 split: sum.splits)
    have ctx: "(case latest_image (take k L) (?id j) of
          Some u \<Rightarrow> if Some (?id j) \<noteq> Some (?id 0) then [u] else []
        | None \<Rightarrow> []) =
        (if j \<noteq> 0 then (case call_result (L ! j) of Inr u \<Rightarrow> [u] | Inl e \<Rightarrow> []) else [])"
    proof (cases "j = 0")
      case True
      then show ?thesis by (simp split: option.splits)
    next
      case False
      then have "?id j \<noteq> ?id 0" using first_iff by blast
      then show ?thesis using False by (simp add: a1 split: sum.splits)
    qed
    have spec: "spec_refs L k =
        (case call_result (L ! 0) of Inr u \<Rightarrow> [u] | Inl e \<Rightarrow> [])
        @ (if j \<noteq> 0 then (case call_result (L ! j) of Inr u \<Rightarrow> [u] | Inl e \<Rightarrow> []) else [])"
      using Suc by (auto simp: spec_refs_def)
    have "seq_refs ops (Some (?id 0)) (latest_image (take k L)) (call_page (L ! k)) =
        (case latest_image (take k L) (?id 0) of
          Some u \<Rightarrow> if ?id k \<noteq> ?id 0 then [u] else [] | None \<Rightarrow> [])
        @ (case latest_image (take k L) (?id j) of
          Some u \<Rightarrow> if Some (?id j) \<noteq> Some (?id 0) then [u] else []
        | None \<Rightarrow> [])"
      by (simp add: seq_refs_def Let_def pk)
    then show ?thesis unfolding anchor ctx spec .
  qed
qed





section \<open>The sequencer's state, iteration by iteration\<close>
















section \<open>The references of a regeneration\<close>



section \<open>Properties of the sequencer\<close>

text \<open>
  C5. A run of the sequencer logs exactly one call per page of the story, in the order
  of the page list: the pages of the logged calls are the page list itself, so no page
  is skipped and none is requested twice. The call for the page at position \<open>k\<close> is
  made when exactly \<open>k\<close> calls have settled (the image model is asked at time \<open>k\<close>),
  that is after the call for the previous page has succeeded or failed. This holds for
  every image model, whichever calls fail.
\<close>

theorem sequencer_one_request_per_page:
  "map call_page (sequence_calls ops pt ai current initialStory comp_v) = pages initialStory \<and>
   (\<forall>k<length (pages initialStory).
      call_result (sequence_calls ops pt ai current initialStory comp_v ! k) =
        generatePageImage ops pt (ai k) (action_description (pages initialStory ! k))
          (seq_style initialStory comp_v)
          (call_refs (sequence_calls ops pt ai current initialStory comp_v ! k)))"
proof -
  note run = generateImagesSequence_calls [of ops pt ai current initialStory comp_v]
  have "map call_page (sequence_calls ops pt ai current initialStory comp_v) = pages initialStory"
    using run by (auto intro!: nth_equalityI simp: issued_def)
  moreover have "call_result (sequence_calls ops pt ai current initialStory comp_v ! k) =
        generatePageImage ops pt (ai k) (action_description (pages initialStory ! k))
          (seq_style initialStory comp_v)
          (call_refs (sequence_calls ops pt ai current initialStory comp_v ! k))"
    if "k < length (pages initialStory)" for k
    using run that by (simp add: issued_def)
  ultimately show ?thesis by blast
qed

theorem sequencer_one_request_per_page_witness:
  "map call_page (sequence_calls int_ops demo_prompt flaky_model (Some (demo_story [1, 2, 3])) (demo_story [1, 2, 3]) BALANCED)
     = pages (demo_story [1, 2, 3]) \<and>
   (1::nat) < length (pages (demo_story [1, 2, 3])) \<and>
   call_result (sequence_calls int_ops demo_prompt flaky_model (Some (demo_story [1, 2, 3])) (demo_story [1, 2, 3]) BALANCED ! 1) =
     generatePageImage int_ops demo_prompt (flaky_model 1) (action_description (pages (demo_story [1, 2, 3]) ! 1))
       (seq_style (demo_story [1, 2, 3]) BALANCED)
       (call_refs (sequence_calls int_ops demo_prompt flaky_model (Some (demo_story [1, 2, 3])) (demo_story [1, 2, 3]) BALANCED ! 1))"
proof -
  have len: "(1::nat) < length (pages (demo_story [1, 2, 3]))"
    by (simp add: demo_story_def)
  show ?thesis
    using sequencer_one_request_per_page [of int_ops demo_prompt flaky_model "Some (demo_story [1, 2, 3])" "demo_story [1, 2, 3]" BALANCED] len
    by blast
qed

text \<open>
  C1, as amended. For every page list, every image model and whatever the subtraction
  of numbers computes, the references of the call for the page at position \<open>k\<close> are:
  the image most recently generated for an earlier page whose id is the first page's id,
  when there is one and the current page's id differs from the first page's id; then
  the image most recently generated for an earlier page whose id is the current page's
  id minus one, when there is one and that id differs from the first page's id. The
  first call has no references. When the ids are distinct and each page's id minus one
  is the id of the page before it in the list (ids that go up by one from any start,
  where the subtraction is exact), this is the specification's list \<open>spec_refs\<close>: the
  first page's image and the immediately preceding page's image.
\<close>

theorem sequencer_references:
  assumes "k < length (pages initialStory)"
  shows "call_refs (sequence_calls ops pt ai current initialStory comp_v ! k) =
      (case latest_image (take k (sequence_calls ops pt ai current initialStory comp_v))
              (page_id (hd (pages initialStory))) of
         Some u \<Rightarrow> if page_id (pages initialStory ! k) \<noteq> page_id (hd (pages initialStory)) then [u] else []
       | None \<Rightarrow> [])
      @ (case latest_image (take k (sequence_calls ops pt ai current initialStory comp_v))
              (minus_one ops (page_id (pages initialStory ! k))) of
         Some u \<Rightarrow> if minus_one ops (page_id (pages initialStory ! k)) \<noteq> page_id (hd (pages initialStory))
                   then [u] else []
       | None \<Rightarrow> [])
    \<and> call_refs (sequence_calls ops pt ai current initialStory comp_v ! 0) = []
    \<and> (distinct (map page_id (pages initialStory)) \<and>
        (\<forall>i. Suc i < length (pages initialStory) \<longrightarrow>
           minus_one ops (page_id (pages initialStory ! Suc i)) = page_id (pages initialStory ! i))
        \<longrightarrow> call_refs (sequence_calls ops pt ai current initialStory comp_v ! k) =
              spec_refs (sequence_calls ops pt ai current initialStory comp_v) k)"
proof -
  let ?L = "sequence_calls ops pt ai current initialStory comp_v"
  let ?ps = "pages initialStory"
  note run = generateImagesSequence_calls [of ops pt ai current initialStory comp_v]
  have len: "length ?L = length ?ps" using run by blast
  have ne: "?ps \<noteq> []" using assms by auto
  then have fp: "firstPageId initialStory = Some (page_id (hd ?ps))"
    by (cases ?ps) (simp_all add: firstPageId_def)
  have refs: "call_refs (?L ! j) = seq_refs ops (Some (page_id (hd ?ps))) (latest_image (take j ?L)) (?ps ! j)"
    if "j < length ?ps" for j
    using run that by (simp add: issued_def fp)
  have pg: "call_page (?L ! j) = ?ps ! j" if "j < length ?ps" for j
    using run that by (simp add: issued_def)
  have general: "call_refs (?L ! k) =
      (case latest_image (take k ?L) (page_id (hd ?ps)) of
         Some u \<Rightarrow> if page_id (?ps ! k) \<noteq> page_id (hd ?ps) then [u] else []
       | None \<Rightarrow> [])
      @ (case latest_image (take k ?L) (minus_one ops (page_id (?ps ! k))) of
         Some u \<Rightarrow> if minus_one ops (page_id (?ps ! k)) \<noteq> page_id (hd ?ps) then [u] else []
       | None \<Rightarrow> [])"
    using refs [OF assms] by (simp add: seq_refs_def Let_def split: option.splits)
  have pos: "0 < length ?ps" using assms by arith
  from refs [OF pos] have first: "call_refs (?L ! 0) = []"
    by (simp add: seq_refs_def)
  have chained: "call_refs (?L ! k) = spec_refs ?L k"
    if d: "distinct (map page_id ?ps)"
      and c: "\<forall>i. Suc i < length ?ps \<longrightarrow> minus_one ops (page_id (?ps ! Suc i)) = page_id (?ps ! i)"
  proof -
    have pages_of: "map call_page ?L = ?ps"
      using pg len by (auto intro!: nth_equalityI)
    have "map (\<lambda>c. page_id (call_page c)) ?L = map page_id (map call_page ?L)" by simp
    then have d': "distinct (map (\<lambda>c. page_id (call_page c)) ?L)"
      using d pages_of by simp
    have c': "\<forall>i. Suc i < length ?L \<longrightarrow>
        minus_one ops (page_id (call_page (?L ! Suc i))) = page_id (call_page (?L ! i))"
      using c pg len by simp
    have k': "k < length ?L" using assms len by simp
    have "call_page (?L ! 0) = hd ?ps" using pg [OF pos] ne by (simp add: hd_conv_nth)
    then show ?thesis
      using chained_refs [OF d' c' k'] refs [OF assms] pg [OF assms] by simp
  qed
  show ?thesis using general first chained by blast
qed

theorem sequencer_references_witness:
  "(2::nat) < length (pages (demo_story [4, 5, 6])) \<and>
   distinct (map page_id (pages (demo_story [4, 5, 6]))) \<and>
   call_refs (sequence_calls int_ops demo_prompt png_model (Some (demo_story [4, 5, 6])) (demo_story [4, 5, 6]) RICH ! 2)
     = spec_refs (sequence_calls int_ops demo_prompt png_model (Some (demo_story [4, 5, 6])) (demo_story [4, 5, 6]) RICH) 2 \<and>
   call_refs (sequence_calls int_ops demo_prompt png_model (Some (demo_story [4, 5, 6])) (demo_story [4, 5, 6]) RICH ! 0) = []"
proof -
  have len: "(2::nat) < length (pages (demo_story [4, 5, 6]))"
    by (simp add: demo_story_def)
  have dist: "distinct (map page_id (pages (demo_story [4, 5, 6])))"
    by (simp add: demo_story_def demo_page_def)
  have chained: "\<forall>i. Suc i < length (pages (demo_story [4, 5, 6])) \<longrightarrow>
      minus_one int_ops (page_id (pages (demo_story [4, 5, 6]) ! Suc i)) = page_id (pages (demo_story [4, 5, 6]) ! i)"
    by (auto simp: demo_story_def demo_page_def int_ops_def less_Suc_eq)
  show ?thesis
    using sequencer_references [OF len, of int_ops demo_prompt png_model "Some (demo_story [4, 5, 6])" RICH]
      len dist chained
    by blast
qed

text \<open>
  The claim as it stands fails in both of its parts. With ids 1, 3, 5 and every call
  succeeding, the third call carries the first page's image only, although the
  immediately preceding page's image has been generated and is not the first one's:
  the preceding page is looked up by id. With ids 1, 1 the second call carries no
  reference, although the first page's image has been generated and the second page is
  not the first: the first page, too, is told apart by id. With ids 1, 1, 3 the third
  call carries the second page's image only: under the first page's id the map holds
  the image generated last for that id, not the first page's.
\<close>

theorem sequencer_references_counterexample:
  "call_refs (sequence_calls int_ops demo_prompt png_model (Some (demo_story [1, 3, 5])) (demo_story [1, 3, 5]) BALANCED ! 2)
     = [''data:image/png;base64,0''] \<and>
   spec_refs (sequence_calls int_ops demo_prompt png_model (Some (demo_story [1, 3, 5])) (demo_story [1, 3, 5]) BALANCED) 2
     = [''data:image/png;base64,0'', ''data:image/png;base64,1''] \<and>
   call_refs (sequence_calls int_ops demo_prompt png_model (Some (demo_story [1, 3, 5])) (demo_story [1, 3, 5]) BALANCED ! 2)
     \<noteq> spec_refs (sequence_calls int_ops demo_prompt png_model (Some (demo_story [1, 3, 5])) (demo_story [1, 3, 5]) BALANCED) 2 \<and>
   call_refs (sequence_calls int_ops demo_prompt png_model (Some (demo_story [1, 1])) (demo_story [1, 1]) BALANCED ! 1)
     = [] \<and>
   spec_refs (sequence_calls int_ops demo_prompt png_model (Some (demo_story [1, 1])) (demo_story [1, 1]) BALANCED) 1
     = [''data:image/png;base64,0''] \<and>
   call_refs (sequence_calls int_ops demo_prompt png_model (Some (demo_story [1, 1, 3])) (demo_story [1, 1, 3]) BALANCED ! 2)
     = [''data:image/png;base64,1''] \<and>
   spec_refs (sequence_calls int_ops demo_prompt png_model (Some (demo_story [1, 1, 3])) (demo_story [1, 1, 3]) BALANCED) 2
     = [''data:image/png;base64,0'', ''data:image/png;base64,1'']"
  by code_simp




section \<open>Properties of the references and of regeneration\<close>




text \<open>
  C7. A regeneration for \<open>pageId\<close>, run on the React state \<open>Some s\<close>, changes only
  pages whose id is \<open>pageId\<close>: on success they get the new \<open>image_url\<close> and
  \<open>is_generating\<close> false (the error was cleared at the start), on failure \<open>error\<close>
  "Retry failed" and \<open>is_generating\<close> false. Every page with another id and the
  fields \<open>uid\<close>, \<open>createdAt\<close>, \<open>title\<close>, \<open>purpose\<close>, \<open>character_blueprint\<close> and
  \<open>visual_style_guide\<close> are unchanged. No call is made exactly when the story shown
  has no page with that id; then only the initial loading flag was set, on pages of the
  state with that id, and a state with no such page is left as it was.
\<close>

theorem regenerate_touches_only_that_page:
  "\<exists>s'. fst (handleRegenerateImage ops pt generateContent complexity_v (Some shown) (Some s) pageId) = Some s' \<and>
      uid s' = uid s \<and> createdAt s' = createdAt s \<and> title s' = title s \<and> purpose s' = purpose s \<and>
      character_blueprint s' = character_blueprint s \<and> visual_style_guide s' = visual_style_guide s \<and>
      length (pages s') = length (pages s) \<and>
      (\<forall>j<length (pages s).
         pages s' ! j =
           (if page_id (pages s ! j) = pageId
            then (case snd (handleRegenerateImage ops pt generateContent complexity_v (Some shown) (Some s) pageId) of
                    None \<Rightarrow> (pages s ! j)\<lparr>is_generating := True, error := None\<rparr>
                  | Some c \<Rightarrow>
                      (case call_result c of
                         Inr imageUrl \<Rightarrow> (pages s ! j)\<lparr>image_url := Some imageUrl, is_generating := False, error := None\<rparr>
                       | Inl e \<Rightarrow> (pages s ! j)\<lparr>is_generating := False, error := Some ''Retry failed''\<rparr>))
            else pages s ! j)) \<and>
      (snd (handleRegenerateImage ops pt generateContent complexity_v (Some shown) (Some s) pageId) = None
         \<longleftrightarrow> (\<forall>p\<in>set (pages shown). page_id p \<noteq> pageId)) \<and>
      ((\<forall>p\<in>set (pages s). page_id p \<noteq> pageId) \<longrightarrow> s' = s)"
proof (cases "find (\<lambda>p. page_id p = pageId) (pages shown)")
  case None
  then have none: "\<forall>p\<in>set (pages shown). page_id p \<noteq> pageId"
    by (simp add: find_None_iff)
  have same: "map (\<lambda>p. if page_id p = pageId then p\<lparr>is_generating := True, error := None\<rparr> else p) (pages s)
      = pages s" if "\<forall>p\<in>set (pages s). page_id p \<noteq> pageId"
    using that by (simp add: map_idI)
  show ?thesis
    using None none same
    by (simp add: handleRegenerateImage_def regen_begin_update_def)
next
  case (Some page)
  then have some: "\<not> (\<forall>p\<in>set (pages shown). page_id p \<noteq> pageId)"
    by (auto simp: find_Some_iff)
  let ?out = "generatePageImage ops pt generateContent (action_description page)
      \<lparr>globalPrompt = Some (visual_style_guide shown), blueprint = Some (character_blueprint shown),
       complexity = complexity_v\<rparr> (regen_refs ops shown pageId)"
  show ?thesis
  proof (cases ?out)
    case (Inl e)
    have same: "map ((\<lambda>p. if page_id p = pageId then p\<lparr>is_generating := False, error := Some ''Retry failed''\<rparr> else p)
        \<circ> (\<lambda>p. if page_id p = pageId then p\<lparr>is_generating := True, error := None\<rparr> else p)) (pages s)
      = pages s" if "\<forall>p\<in>set (pages s). page_id p \<noteq> pageId"
      using that by (simp add: map_idI)
    show ?thesis
      using Some some Inl same
      by (simp add: handleRegenerateImage_def regen_begin_update_def regen_failure_update_def Let_def)
  next
    case (Inr imageUrl)
    have same: "map ((\<lambda>p. if page_id p = pageId then p\<lparr>image_url := Some imageUrl, is_generating := False\<rparr> else p)
        \<circ> (\<lambda>p. if page_id p = pageId then p\<lparr>is_generating := True, error := None\<rparr> else p)) (pages s)
      = pages s" if "\<forall>p\<in>set (pages s). page_id p \<noteq> pageId"
      using that by (simp add: map_idI)
    show ?thesis
      using Some some Inr same
      by (simp add: handleRegenerateImage_def regen_begin_update_def regen_success_update_def Let_def)
  qed
qed

theorem regenerate_touches_only_that_page_witness:
  "(0::nat) < length (pages (demo_story [1, 2])) \<and>
   page_id (pages (demo_story [1, 2]) ! 0) \<noteq> 2 \<and>
   (\<exists>s'. fst (handleRegenerateImage int_ops demo_prompt (png_model 0) RICH
               (Some (demo_story [1, 2])) (Some (demo_story [1, 2])) 2) = Some s' \<and>
         uid s' = uid (demo_story [1, 2]) \<and>
         pages s' ! 0 = pages (demo_story [1, 2]) ! 0)"
proof -
  have len: "(0::nat) < length (pages (demo_story [1, 2]))"
    by (simp add: demo_story_def)
  have other: "page_id (pages (demo_story [1, 2]) ! 0) \<noteq> 2"
    by (simp add: demo_story_def demo_page_def)
  obtain s' where
    "fst (handleRegenerateImage int_ops demo_prompt (png_model 0) RICH
            (Some (demo_story [1, 2])) (Some (demo_story [1, 2])) 2) = Some s'"
    "uid s' = uid (demo_story [1, 2])"
    "\<forall>j<length (pages (demo_story [1, 2])).
       pages s' ! j =
         (if page_id (pages (demo_story [1, 2]) ! j) = 2
          then (case snd (handleRegenerateImage int_ops demo_prompt (png_model 0) RICH
                       (Some (demo_story [1, 2])) (Some (demo_story [1, 2])) 2) of
                  None \<Rightarrow> (pages (demo_story [1, 2]) ! j)\<lparr>is_generating := True, error := None\<rparr>
                | Some c \<Rightarrow>
                    (case call_result c of
                       Inr imageUrl \<Rightarrow> (pages (demo_story [1, 2]) ! j)\<lparr>image_url := Some imageUrl, is_generating := False, error := None\<rparr>
                     | Inl e \<Rightarrow> (pages (demo_story [1, 2]) ! j)\<lparr>is_generating := False, error := Some ''Retry failed''\<rparr>))
          else pages (demo_story [1, 2]) ! j)"
    using regenerate_touches_only_that_page [of int_ops demo_prompt "png_model 0" RICH
        "demo_story [1, 2]" "demo_story [1, 2]" 2]
    by blast
  then show ?thesis using len other by auto
qed

section \<open>The local store and the history\<close>

lemma mset_insert_by: "mset (insert_by cmp x xs) = add_mset x (mset xs)"
  by (induction xs) auto

lemma mset_Array_sort: "mset (Array_sort cmp xs) = mset xs"
  by (induction xs) (auto simp: mset_insert_by)

lemma set_insert_by: "set (insert_by cmp x xs) = insert x (set xs)"
  by (induction xs) auto

lemma sorted_insert_by:
  "sorted_wrt (\<lambda>a b. createdAt b \<le> createdAt a) xs \<Longrightarrow>
   sorted_wrt (\<lambda>a b. createdAt b \<le> createdAt a) (insert_by newest_first x xs)"
  by (induction xs) (auto simp: set_insert_by newest_first_def)

lemma sorted_Array_sort:
  "sorted_wrt (\<lambda>a b. createdAt b \<le> createdAt a) (Array_sort newest_first xs)"
  by (induction xs) (auto simp: sorted_insert_by)

lemma set_idb_put: "uid ` set (idb_put x xs) = insert (uid x) (uid ` set xs)"
  by (induction xs) auto

lemma sorted_idb_put:
  "sorted_wrt (<) (map uid xs) \<Longrightarrow> sorted_wrt (<) (map uid (idb_put x xs))"
proof (induction xs)
  case Nil
  then show ?case by simp
next
  case (Cons y ys)
  have "uid y < u" if "u \<in> uid ` set (idb_put x ys)" "uid y < uid x \<or> uid x = uid y" "uid x \<noteq> uid y" for u
    using that Cons.prems by (auto simp: set_idb_put)
  then show ?case using Cons by (auto simp: not_less)
qed

lemma length_idb_put_existing:
  "sorted_wrt (<) (map uid xs) \<Longrightarrow> uid x \<in> uid ` set xs \<Longrightarrow> length (idb_put x xs) = length xs"
  by (induction xs) (auto simp: less_le_not_le)

lemma idb_put_member: "x \<in> set (idb_put x xs)"
  by (induction xs) auto

lemma history_updater_uids:
  "list_ex (\<lambda>h. uid h = uid s) prev \<Longrightarrow> map uid (history_updater s prev) = map uid prev"
  by (simp add: history_updater_def)

lemma history_updater_distinct:
  "distinct (map uid prev) \<Longrightarrow> distinct (map uid (history_updater s prev))"
proof (cases "list_ex (\<lambda>h. uid h = uid s) prev")
  case True
  assume "distinct (map uid prev)"
  then show ?thesis using history_updater_uids [OF True] by simp
next
  case False
  assume "distinct (map uid prev)"
  then show ?thesis using False by (auto simp: history_updater_def list_ex_iff)
qed

lemma strict_sorted_distinct: "sorted_wrt (<) (ks :: string list) \<Longrightarrow> distinct ks"
  by (induction ks) auto

lemma getHistoryFromDB_distinct:
  assumes "sorted_wrt (<) (map uid store)" "getHistoryFromDB faults store = Inr saved"
  shows "distinct (map uid saved)"
proof -
  have "saved = [] \<or> saved = Array_sort newest_first store"
    using assms(2) by (auto simp: getHistoryFromDB_def split: option.splits)
  moreover have "distinct (map uid (Array_sort newest_first store))"
  proof -
    have "mset (map uid (Array_sort newest_first store)) = mset (map uid store)"
      by (simp add: mset_Array_sort)
    then show ?thesis
      using strict_sorted_distinct [OF assms(1)] by (metis mset_eq_imp_distinct_iff)
  qed
  ultimately show ?thesis by auto
qed

lemma saveStoryToDB_sorted:
  "sorted_wrt (<) (map uid store) \<Longrightarrow> sorted_wrt (<) (map uid (snd (saveStoryToDB faults s store)))"
  by (simp add: saveStoryToDB_def sorted_idb_put split: option.splits)

lemma app_step_inv:
  assumes "distinct (map uid (history a))" "sorted_wrt (<) (map uid (db a))"
  shows "distinct (map uid (history (app_step a ev))) \<and> sorted_wrt (<) (map uid (db (app_step a ev)))"
proof (cases ev)
  case (Save faults s)
  then show ?thesis
    using assms by (simp add: persistence_effect_def history_updater_distinct saveStoryToDB_sorted)
next
  case (Load faults)
  show ?thesis
  proof (cases "getHistoryFromDB faults (db a)")
    case (Inl e)
    then show ?thesis using assms Load by (simp add: loadHistory_def)
  next
    case (Inr saved)
    then have "distinct (map uid saved)"
      using getHistoryFromDB_distinct assms(2) by blast
    then show ?thesis using assms Load Inr by (simp add: loadHistory_def)
  qed
qed

lemma run_events_inv:
  "distinct (map uid (history a)) \<Longrightarrow> sorted_wrt (<) (map uid (db a)) \<Longrightarrow>
   distinct (map uid (history (run_events evs a))) \<and> sorted_wrt (<) (map uid (db (run_events evs a)))"
  unfolding run_events_def
proof (induction evs arbitrary: a)
  case Nil
  then show ?case by simp
next
  case (Cons ev evs)
  have "distinct (map uid (history (app_step a ev))) \<and> sorted_wrt (<) (map uid (db (app_step a ev)))"
    using Cons.prems by (rule app_step_inv)
  then show ?case using Cons.IH by simp
qed

text \<open>
  C3. Whenever \<open>getHistoryFromDB\<close> resolves, its list is sorted by creation time with
  the newest first: of two adjacent entries, the later one's \<open>createdAt\<close> is at most
  the earlier one's. When the database opens and the read succeeds, it resolves, and
  the list holds the records of the store, each as often as the store does.
\<close>

theorem history_sorted_newest_first:
  "(\<forall>xs. getHistoryFromDB faults store = Inr xs \<longrightarrow>
      (\<forall>i. Suc i < length xs \<longrightarrow> createdAt (xs ! Suc i) \<le> createdAt (xs ! i))) \<and>
   (open_error faults = None \<and> transaction_error faults = None \<and> request_error faults = None \<longrightarrow>
      (\<exists>xs. getHistoryFromDB faults store = Inr xs \<and> mset xs = mset store))"
proof -
  have adj: "createdAt (xs ! Suc i) \<le> createdAt (xs ! i)"
    if "getHistoryFromDB faults store = Inr xs" "Suc i < length xs" for xs i
  proof -
    have "xs = [] \<or> xs = Array_sort newest_first store"
      using that(1) by (auto simp: getHistoryFromDB_def split: option.splits)
    then have "sorted_wrt (\<lambda>a b. createdAt b \<le> createdAt a) xs"
      using sorted_Array_sort by auto
    then show ?thesis
      using that(2) by (simp add: sorted_wrt_iff_nth_less)
  qed
  have all: "\<exists>xs. getHistoryFromDB faults store = Inr xs \<and> mset xs = mset store"
    if "open_error faults = None" "transaction_error faults = None" "request_error faults = None"
    using that by (simp add: getHistoryFromDB_def mset_Array_sort)
  show ?thesis using adj all by blast
qed

theorem history_sorted_newest_first_witness:
  "getHistoryFromDB no_faults [saved_story ''a1'' 5, saved_story ''b2'' 9]
     = Inr [saved_story ''b2'' 9, saved_story ''a1'' 5] \<and>
   Suc 0 < length [saved_story ''b2'' 9, saved_story ''a1'' 5] \<and>
   createdAt ([saved_story ''b2'' 9, saved_story ''a1'' 5] ! Suc 0)
     \<le> createdAt ([saved_story ''b2'' 9, saved_story ''a1'' 5] ! 0) \<and>
   open_error no_faults = None \<and> transaction_error no_faults = None \<and> request_error no_faults = None \<and>
   (\<exists>xs. getHistoryFromDB no_faults [saved_story ''a1'' 5, saved_story ''b2'' 9] = Inr xs \<and>
         mset xs = mset [saved_story ''a1'' 5, saved_story ''b2'' 9])"
proof -
  have run: "getHistoryFromDB no_faults [saved_story ''a1'' 5, saved_story ''b2'' 9]
     = Inr [saved_story ''b2'' 9, saved_story ''a1'' 5]"
    by (simp add: getHistoryFromDB_def no_faults_def newest_first_def saved_story_def)
  have len: "Suc 0 < length [saved_story ''b2'' 9, saved_story ''a1'' 5]" by simp
  have ok: "open_error no_faults = None" "transaction_error no_faults = None"
    "request_error no_faults = None"
    by (simp_all add: no_faults_def)
  show ?thesis
    using history_sorted_newest_first [of no_faults "[saved_story ''a1'' 5, saved_story ''b2'' 9]"]
      run len ok
    by blast
qed

text \<open>
  C8, evaluated where it fails. The database opens and the \<open>getAll\<close> request fires
  \<open>onerror\<close>: \<open>getHistoryFromDB\<close> rejects with the request's error instead of
  resolving with the empty list.
\<close>

theorem getHistoryFromDB_read_failure_rejects:
  "getHistoryFromDB \<lparr>open_error = None, transaction_error = None,
       request_error = Some (DOMException ''UnknownError'')\<rparr> [demo_story [1, 2]]
     = Inl (DOMException ''UnknownError'')"
  by (simp add: getHistoryFromDB_def)

text \<open>
  C6. Start with a history without repeated uids and a store with one record per uid.
  After any sequence of saves (and loads of the history), whichever of them fail, the
  history holds no two storybooks with the same uid, and neither does the store.
  Saving a story whose uid is in the history keeps the history's length and puts the
  story at the position of the entry with that uid; saving a story whose uid is in
  the store keeps the number of records, and the story is among them.
\<close>

theorem saves_keep_uids_unique:
  assumes "distinct (map uid (history a))" "sorted_wrt (<) (map uid (db a))"
  shows "distinct (map uid (history (run_events evs a))) \<and>
     distinct (map uid (db (run_events evs a))) \<and>
     (list_ex (\<lambda>h. uid h = uid s) (history a) \<longrightarrow>
        length (history (persistence_effect faults (Some s) a)) = length (history a) \<and>
        (\<forall>i<length (history a).
           history (persistence_effect faults (Some s) a) ! i =
             (if uid (history a ! i) = uid s then s else history a ! i))) \<and>
     (list_ex (\<lambda>h. uid h = uid s) (db a) \<longrightarrow>
        length (db (persistence_effect no_faults (Some s) a)) = length (db a) \<and>
        s \<in> set (db (persistence_effect no_faults (Some s) a)))"
proof -
  note inv = run_events_inv [OF assms, of evs]
  have h: "length (history (persistence_effect faults (Some s) a)) = length (history a) \<and>
        (\<forall>i<length (history a).
           history (persistence_effect faults (Some s) a) ! i =
             (if uid (history a ! i) = uid s then s else history a ! i))"
    if "list_ex (\<lambda>h. uid h = uid s) (history a)"
    using that by (simp add: persistence_effect_def history_updater_def)
  have d: "length (db (persistence_effect no_faults (Some s) a)) = length (db a) \<and>
        s \<in> set (db (persistence_effect no_faults (Some s) a))"
    if "list_ex (\<lambda>h. uid h = uid s) (db a)"
  proof -
    have "uid s \<in> uid ` set (db a)" using that by (auto simp: list_ex_iff image_iff intro: sym)
    then show ?thesis
      using assms(2) by (simp add: persistence_effect_def saveStoryToDB_def no_faults_def
          length_idb_put_existing idb_put_member)
  qed
  show ?thesis
    using inv strict_sorted_distinct h d by blast
qed

theorem saves_keep_uids_unique_witness:
  "distinct (map uid (history \<lparr>db = [saved_story ''a1'' 5], history = [saved_story ''a1'' 5]\<rparr>)) \<and>
   sorted_wrt (<) (map uid (db \<lparr>db = [saved_story ''a1'' 5], history = [saved_story ''a1'' 5]\<rparr>)) \<and>
   list_ex (\<lambda>h. uid h = uid (saved_story ''a1'' 7))
     (history \<lparr>db = [saved_story ''a1'' 5], history = [saved_story ''a1'' 5]\<rparr>) \<and>
   list_ex (\<lambda>h. uid h = uid (saved_story ''a1'' 7))
     (db \<lparr>db = [saved_story ''a1'' 5], history = [saved_story ''a1'' 5]\<rparr>) \<and>
   distinct (map uid (history (run_events
       [Save no_faults (saved_story ''a1'' 7), Save no_faults (saved_story ''b2'' 9), Load no_faults]
       \<lparr>db = [saved_story ''a1'' 5], history = [saved_story ''a1'' 5]\<rparr>))) \<and>
   length (history (persistence_effect no_faults (Some (saved_story ''a1'' 7))
       \<lparr>db = [saved_story ''a1'' 5], history = [saved_story ''a1'' 5]\<rparr>)) = 1 \<and>
   length (db (persistence_effect no_faults (Some (saved_story ''a1'' 7))
       \<lparr>db = [saved_story ''a1'' 5], history = [saved_story ''a1'' 5]\<rparr>)) = 1"
proof -
  let ?a = "\<lparr>db = [saved_story ''a1'' 5], history = [saved_story ''a1'' 5]\<rparr>"
  have h: "distinct (map uid (history ?a))" by simp
  have d: "sorted_wrt (<) (map uid (db ?a))" by simp
  have eh: "list_ex (\<lambda>h. uid h = uid (saved_story ''a1'' 7)) (history ?a)"
    by (simp add: saved_story_def)
  have ed: "list_ex (\<lambda>h. uid h = uid (saved_story ''a1'' 7)) (db ?a)"
    by (simp add: saved_story_def)
  have "length (history ?a) = 1" "length (db ?a) = 1" by simp_all
  then show ?thesis
    using saves_keep_uids_unique [OF h d,
        of "[Save no_faults (saved_story ''a1'' 7), Save no_faults (saved_story ''b2'' 9), Load no_faults]"
           "saved_story ''a1'' 7" no_faults]
      h d eh ed
    by metis
qed

section \<open>The storyboard service\<close>

text \<open>
  C4, as amended. \<open>generateStoryboard\<close> returns the object parsed from the model's
  response text with a generated \<open>uid\<close> and the \<open>createdAt\<close> timestamp injected
  (replacing members of these names): it holds \<open>character_blueprint\<close>,
  \<open>visual_style_guide\<close> and \<open>pages\<close> exactly as the response's object does, and no
  member beyond the response's and the two injected. For an empty or absent response
  text, parsed as \<open>{}\<close>, the result holds \<open>uid\<close> and \<open>createdAt\<close> only. When the
  model call fails, or the text is not valid JSON, it throws the error "Failed to
  generate storyboard structure.".
\<close>

theorem generateStoryboard_result:
  "(generateContent (storyboard_prompt spt storyText c gender) = Inl e \<longrightarrow>
      generateStoryboard spt JSON_parse env generateContent storyText c gender =
        Inl (Error ''Failed to generate storyboard structure.'')) \<and>
   (generateContent (storyboard_prompt spt storyText c gender) = Inr t \<and>
    JSON_parse (text_or_braces t) = Inl e' \<longrightarrow>
      generateStoryboard spt JSON_parse env generateContent storyText c gender =
        Inl (Error ''Failed to generate storyboard structure.'')) \<and>
   (generateContent (storyboard_prompt spt storyText c gender) = Inr t \<and>
    JSON_parse (text_or_braces t) = Inr (JObject kvs) \<longrightarrow>
      (\<exists>obj. generateStoryboard spt JSON_parse env generateContent storyText c gender = Inr obj \<and>
         obj ''uid'' = Some (JString (new_uid env)) \<and>
         obj ''createdAt'' = Some (JNumber (now_createdAt env)) \<and>
         obj ''character_blueprint'' = map_of (rev kvs) ''character_blueprint'' \<and>
         obj ''visual_style_guide'' = map_of (rev kvs) ''visual_style_guide'' \<and>
         obj ''pages'' = map_of (rev kvs) ''pages'' \<and>
         dom obj = fst ` set kvs \<union> {''uid'', ''createdAt''})) \<and>
   ((t = None \<or> t = Some []) \<and>
    generateContent (storyboard_prompt spt storyText c gender) = Inr t \<and>
    JSON_parse ''{}'' = Inr (JObject []) \<longrightarrow>
      generateStoryboard spt JSON_parse env generateContent storyText c gender =
        Inr [''uid'' \<mapsto> JString (new_uid env), ''createdAt'' \<mapsto> JNumber (now_createdAt env)])"
proof -
  have a: "generateStoryboard spt JSON_parse env generateContent storyText c gender =
        Inl (Error ''Failed to generate storyboard structure.'')"
    if "generateContent (storyboard_prompt spt storyText c gender) = Inl e"
    using that by (simp add: generateStoryboard_def)
  have b: "generateStoryboard spt JSON_parse env generateContent storyText c gender =
        Inl (Error ''Failed to generate storyboard structure.'')"
    if "generateContent (storyboard_prompt spt storyText c gender) = Inr t"
      "JSON_parse (text_or_braces t) = Inl e'"
    using that by (simp add: generateStoryboard_def)
  have c: "\<exists>obj. generateStoryboard spt JSON_parse env generateContent storyText c gender = Inr obj \<and>
         obj ''uid'' = Some (JString (new_uid env)) \<and>
         obj ''createdAt'' = Some (JNumber (now_createdAt env)) \<and>
         obj ''character_blueprint'' = map_of (rev kvs) ''character_blueprint'' \<and>
         obj ''visual_style_guide'' = map_of (rev kvs) ''visual_style_guide'' \<and>
         obj ''pages'' = map_of (rev kvs) ''pages'' \<and>
         dom obj = fst ` set kvs \<union> {''uid'', ''createdAt''}"
    if "generateContent (storyboard_prompt spt storyText c gender) = Inr t"
      "JSON_parse (text_or_braces t) = Inr (JObject kvs)"
    using that by (auto simp: generateStoryboard_def spread_def dom_map_of_conv_image_fst)
  have d: "generateStoryboard spt JSON_parse env generateContent storyText c gender =
        Inr [''uid'' \<mapsto> JString (new_uid env), ''createdAt'' \<mapsto> JNumber (now_createdAt env)]"
    if "t = None \<or> t = Some []"
      "generateContent (storyboard_prompt spt storyText c gender) = Inr t"
      "JSON_parse ''{}'' = Inr (JObject [])"
    using that by (auto simp: generateStoryboard_def text_or_braces_def spread_def)
  show ?thesis using a b c d by blast
qed

theorem generateStoryboard_result_witness:
  "offline_text_model (storyboard_prompt demo_storyboard_prompt ''Timmy shares.'' RICH girl)
     = Inl (ApiError ''offline'') \<and>
   generateStoryboard demo_storyboard_prompt demo_JSON_parse demo_env offline_text_model ''Timmy shares.'' RICH girl
     = Inl (Error ''Failed to generate storyboard structure.'') \<and>
   json_model (storyboard_prompt demo_storyboard_prompt ''Timmy shares.'' RICH girl)
     = Inr (Some demo_response_text) \<and>
   parse_braces (text_or_braces (Some demo_response_text)) = Inl (SyntaxError ''Unexpected token'') \<and>
   generateStoryboard demo_storyboard_prompt parse_braces demo_env json_model ''Timmy shares.'' RICH girl
     = Inl (Error ''Failed to generate storyboard structure.'') \<and>
   demo_JSON_parse (text_or_braces (Some demo_response_text))
     = Inr (JObject [(''uid'', JNumber 1), (''pages'', JArray [])]) \<and>
   (\<exists>obj. generateStoryboard demo_storyboard_prompt demo_JSON_parse demo_env json_model ''Timmy shares.'' RICH girl
            = Inr obj \<and>
          obj ''uid'' = Some (JString (new_uid demo_env)) \<and>
          obj ''pages'' = Some (JArray []) \<and>
          obj ''character_blueprint'' = None) \<and>
   blank_model (storyboard_prompt demo_storyboard_prompt ''Timmy shares.'' RICH girl) = Inr None \<and>
   demo_JSON_parse ''{}'' = Inr (JObject []) \<and>
   generateStoryboard demo_storyboard_prompt demo_JSON_parse demo_env blank_model ''Timmy shares.'' RICH girl
     = Inr [''uid'' \<mapsto> JString (new_uid demo_env), ''createdAt'' \<mapsto> JNumber (now_createdAt demo_env)]"
proof -
  let ?p = "storyboard_prompt demo_storyboard_prompt ''Timmy shares.'' RICH girl"
  have off: "offline_text_model ?p = Inl (ApiError ''offline'')"
    by (simp add: offline_text_model_def)
  have js: "json_model ?p = Inr (Some demo_response_text)"
    by (simp add: json_model_def)
  have bad: "parse_braces (text_or_braces (Some demo_response_text)) = Inl (SyntaxError ''Unexpected token'')"
    by (simp add: parse_braces_def text_or_braces_def demo_response_text_def)
  have good: "demo_JSON_parse (text_or_braces (Some demo_response_text))
     = Inr (JObject [(''uid'', JNumber 1), (''pages'', JArray [])])"
    by (simp add: demo_JSON_parse_def text_or_braces_def demo_response_text_def)
  have blank: "blank_model ?p = Inr None"
    by (simp add: blank_model_def)
  have braces: "demo_JSON_parse ''{}'' = Inr (JObject [])"
    by (simp add: demo_JSON_parse_def)
  have a: "generateStoryboard demo_storyboard_prompt demo_JSON_parse demo_env offline_text_model ''Timmy shares.'' RICH girl
     = Inl (Error ''Failed to generate storyboard structure.'')"
    using generateStoryboard_result [where generateContent = offline_text_model
        and spt = demo_storyboard_prompt and storyText = "''Timmy shares.''" and c = RICH and gender = girl
        and JSON_parse = demo_JSON_parse and env = demo_env and e = "ApiError ''offline''"] off
    by blast
  have b: "generateStoryboard demo_storyboard_prompt parse_braces demo_env json_model ''Timmy shares.'' RICH girl
     = Inl (Error ''Failed to generate storyboard structure.'')"
    using generateStoryboard_result [where generateContent = json_model
        and spt = demo_storyboard_prompt and storyText = "''Timmy shares.''" and c = RICH and gender = girl
        and JSON_parse = parse_braces and env = demo_env and t = "Some demo_response_text"
        and e' = "SyntaxError ''Unexpected token''"] js bad
    by blast
  obtain obj where obj:
    "generateStoryboard demo_storyboard_prompt demo_JSON_parse demo_env json_model ''Timmy shares.'' RICH girl = Inr obj"
    "obj ''uid'' = Some (JString (new_uid demo_env))"
    "obj ''character_blueprint'' = map_of (rev [(''uid'', JNumber 1), (''pages'', JArray [])]) ''character_blueprint''"
    "obj ''pages'' = map_of (rev [(''uid'', JNumber 1), (''pages'', JArray [])]) ''pages''"
    using generateStoryboard_result [where generateContent = json_model
        and spt = demo_storyboard_prompt and storyText = "''Timmy shares.''" and c = RICH and gender = girl
        and JSON_parse = demo_JSON_parse and env = demo_env and t = "Some demo_response_text"
        and kvs = "[(''uid'', JNumber 1), (''pages'', JArray [])]"] js good
    by blast
  have c: "\<exists>obj. generateStoryboard demo_storyboard_prompt demo_JSON_parse demo_env json_model ''Timmy shares.'' RICH girl
            = Inr obj \<and>
          obj ''uid'' = Some (JString (new_uid demo_env)) \<and>
          obj ''pages'' = Some (JArray []) \<and>
          obj ''character_blueprint'' = None"
    using obj by simp
  have d: "generateStoryboard demo_storyboard_prompt demo_JSON_parse demo_env blank_model ''Timmy shares.'' RICH girl
     = Inr [''uid'' \<mapsto> JString (new_uid demo_env), ''createdAt'' \<mapsto> JNumber (now_createdAt demo_env)]"
    using generateStoryboard_result [where generateContent = blank_model
        and spt = demo_storyboard_prompt and storyText = "''Timmy shares.''" and c = RICH and gender = girl
        and JSON_parse = demo_JSON_parse and env = demo_env and t = None] blank braces
    by blast
  show ?thesis
    using off js bad good blank braces a b c d by blast
qed

text \<open>
  The claim as it stands fails for an absent response text: the function returns an
  object without \<open>pages\<close>, \<open>character_blueprint\<close> and \<open>visual_style_guide\<close>.
\<close>

theorem generateStoryboard_counterexample:
  "generateStoryboard demo_storyboard_prompt parse_braces demo_env blank_model ''Timmy shares.'' BALANCED boy
     = Inr [''uid'' \<mapsto> JString (new_uid demo_env), ''createdAt'' \<mapsto> JNumber (now_createdAt demo_env)] \<and>
   [''uid'' \<mapsto> JString (new_uid demo_env), ''createdAt'' \<mapsto> JNumber (now_createdAt demo_env)] ''pages'' = None \<and>
   [''uid'' \<mapsto> JString (new_uid demo_env), ''createdAt'' \<mapsto> JNumber (now_createdAt demo_env)] ''character_blueprint'' = None \<and>
   [''uid'' \<mapsto> JString (new_uid demo_env), ''createdAt'' \<mapsto> JNumber (now_createdAt demo_env)] ''visual_style_guide'' = None"
  by (simp add: generateStoryboard_def blank_model_def text_or_braces_def parse_braces_def spread_def)

end
